theory Spec2Isabelle
  imports Complex_Main
begin

section \<open>Tensors, errors and the random source\<close>

text \<open>
  A tensor is its shape, its entries in row-major order and the device it lives on.
  Python exceptions are values of \<open>error\<close>; a function that can raise returns
  \<open>error + 'a\<close> with \<open>Inl\<close> for the exception.
\<close>

datatype device = CPU | CUDA nat

datatype error =
    AssertionError string
  | ValueError string
  | IndexError string
  | RuntimeError string
  | TypeError string

record 'a tensor =
  shape :: "nat list"
  data :: "'a list"
  device :: device

definition numel :: "nat list \<Rightarrow> nat" where
  "numel s = prod_list s"

definition wf_tensor :: "'a tensor \<Rightarrow> bool" where
  "wf_tensor t = (length (data t) = numel (shape t))"

text \<open>\<open>t.to(device)\<close>: the same tensor on the given device.\<close>

definition to_device :: "'a tensor \<Rightarrow> device \<Rightarrow> 'a tensor" where
  "to_device t d = t\<lparr>device := d\<rparr>"

text \<open>\<open>torch.empty(n)\<close>: with \<open>n = 0\<close> there is no entry to leave uninitialised.\<close>

definition empty0 :: "real tensor" where
  "empty0 = \<lparr>shape = [0], data = [], device = CPU\<rparr>"

text \<open>\<open>t * c\<close> for a Python number \<open>c\<close>.\<close>

definition tscale :: "real tensor \<Rightarrow> real \<Rightarrow> real tensor" where
  "tscale t c = t\<lparr>data := map (\<lambda>v. v * c) (data t)\<rparr>"

text \<open>
  The generator behind \<open>torch.randn\<close> is the stream of its future standard-normal
  samples. \<open>torch.randn(n, m)\<close> takes the next \<open>n * m\<close> of them, on the CPU, and
  raises on a negative size.
\<close>

type_synonym rng = "nat \<Rightarrow> real"

definition randn :: "rng \<Rightarrow> int \<Rightarrow> int \<Rightarrow> error + (real tensor \<times> rng)" where
  "randn g n m =
     (if n < 0 \<or> m < 0
      then Inl (RuntimeError ''Trying to create tensor with negative dimension'')
      else let k = nat n * nat m
           in Inr (\<lparr>shape = [nat n, nat m], data = map g [0..<k], device = CPU\<rparr>,
                   \<lambda>i. g (i + k)))"

text \<open>The \<open>i\<close>-th slice of a tensor along its first dimension, as a flat list.\<close>

definition row :: "'a tensor \<Rightarrow> nat \<Rightarrow> 'a list" where
  "row t i = (let w = numel (tl (shape t)) in take w (drop (i * w) (data t)))"

fun sequence_sum :: "('e + 'a) list \<Rightarrow> 'e + 'a list" where
  "sequence_sum [] = Inr []"
| "sequence_sum (Inl e # _) = Inl e"
| "sequence_sum (Inr v # rs) =
     (case sequence_sum rs of Inl e \<Rightarrow> Inl e | Inr vs \<Rightarrow> Inr (v # vs))"

text \<open>
  \<open>t[ix]\<close> for an integer tensor \<open>ix\<close>: one slice of \<open>t\<close> per entry of \<open>ix\<close>; an
  entry counts from the end when negative and raises when out of range.
\<close>

definition index_one :: "'a tensor \<Rightarrow> nat \<Rightarrow> int \<Rightarrow> error + 'a list" where
  "index_one t n i =
     (let j = (if i < 0 then int n + i else i)
      in if 0 \<le> j \<and> j < int n then Inr (row t (nat j))
         else Inl (IndexError ''index out of range in self''))"

definition index_rows :: "'a tensor \<Rightarrow> int tensor \<Rightarrow> error + 'a tensor" where
  "index_rows t ix =
     (case shape t of
        [] \<Rightarrow> Inl (IndexError ''too many indices for tensor of dimension 0'')
      | n # rest \<Rightarrow>
          (case sequence_sum (map (index_one t n) (data ix)) of
             Inl e \<Rightarrow> Inl e
           | Inr rs \<Rightarrow> Inr \<lparr>shape = shape ix @ rest, data = concat rs, device = device t\<rparr>))"

text \<open>\<open>t[..., j]\<close>: entry \<open>j\<close> of every innermost vector.\<close>

definition select_last :: "'a tensor \<Rightarrow> nat \<Rightarrow> error + 'a tensor" where
  "select_last t j =
     (if shape t = [] then Inl (IndexError ''too many indices for tensor of dimension 0'')
      else if last (shape t) \<le> j then Inl (IndexError ''index out of bounds'')
      else Inr \<lparr>shape = butlast (shape t),
                data = map (\<lambda>k. data t ! (k * last (shape t) + j))
                           [0..<numel (butlast (shape t))],
                device = device t\<rparr>)"

text \<open>
  \<open>torch.cat(ts, dim=-1)\<close>. A one-dimensional tensor of shape \<open>[0]\<close> is skipped; the
  others must agree in every dimension but the last. The result is on the device of the
  first tensor kept; whether the devices agree is not looked at here.
\<close>

definition chunk_of :: "'a tensor \<Rightarrow> nat \<Rightarrow> 'a list" where
  "chunk_of t r = (let w = last (shape t) in take w (drop (r * w) (data t)))"

definition cat_last :: "'a tensor list \<Rightarrow> error + 'a tensor" where
  "cat_last ts =
     (case filter (\<lambda>t. shape t \<noteq> [0]) ts of
        [] \<Rightarrow> (case ts of
                 [] \<Rightarrow> Inl (RuntimeError ''torch.cat(): expected a non-empty list of Tensors'')
               | t # _ \<Rightarrow> Inr \<lparr>shape = [0], data = [], device = device t\<rparr>)
      | t # us \<Rightarrow>
          if list_ex (\<lambda>u. shape u = []) (t # us)
          then Inl (RuntimeError ''zero-dimensional tensor cannot be concatenated'')
          else if list_ex (\<lambda>u. butlast (shape u) \<noteq> butlast (shape t)) us
          then Inl (RuntimeError ''Sizes of tensors must match except in dimension'')
          else Inr \<lparr>shape = butlast (shape t) @ [sum_list (map (\<lambda>u. last (shape u)) (t # us))],
                    data = concat (map (\<lambda>r. concat (map (\<lambda>u. chunk_of u r) (t # us)))
                                       [0..<numel (butlast (shape t))]),
                    device = device t\<rparr>)"

section \<open>ContextModel\<close>

record context_model =
  meta :: bool
  max_context_dim :: int
  task_num :: int
  init_scale :: real
  context_hat :: "real tensor"

text \<open>\<open>ContextModel(meta, max_context_dim, task_num, init_scale)\<close>, with its defaults.\<close>

definition ContextModel ::
  "rng \<Rightarrow> bool \<Rightarrow> int \<Rightarrow> int \<Rightarrow> real \<Rightarrow> error + (context_model \<times> rng)" where
  "ContextModel g meta_arg max_context_dim_arg task_num_arg init_scale_arg =
     (case randn g task_num_arg max_context_dim_arg of
        Inl e \<Rightarrow> Inl e
      | Inr (r, g') \<Rightarrow>
          Inr (\<lparr>meta = meta_arg, max_context_dim = max_context_dim_arg,
                task_num = task_num_arg, init_scale = init_scale_arg,
                context_hat = tscale r init_scale_arg\<rparr>, g'))"

definition ContextModel_default :: "rng \<Rightarrow> error + (context_model \<times> rng)" where
  "ContextModel_default g = ContextModel g False 0 0 0"

text \<open>
  Python's \<open>a or b\<close> on an optional integer: \<open>a\<close> unless it is \<open>None\<close> or \<open>0\<close>.
\<close>

definition py_or :: "int option \<Rightarrow> int \<Rightarrow> int" where
  "py_or a b = (case a of None \<Rightarrow> b | Some v \<Rightarrow> if v = 0 then b else v)"

text \<open>
  \<open>reset\<close> assigns \<open>self.task_num\<close> before it draws the new table, so the model
  returns the object as it is left behind together with the outcome.
\<close>

definition reset ::
  "context_model \<Rightarrow> int option \<Rightarrow> rng \<Rightarrow> (error + unit) \<times> context_model \<times> rng" where
  "reset self task_num_arg g =
     (let dev = device (context_hat self);
          self1 = self\<lparr>task_num := py_or task_num_arg (task_num self)\<rparr>
      in case randn g (task_num self1) (max_context_dim self1) of
           Inl e \<Rightarrow> (Inl e, self1, g)
         | Inr (r, g') \<Rightarrow>
             (Inr (),
              self1\<lparr>context_hat := to_device (tscale r (init_scale self1)) dev\<rparr>, g'))"

text \<open>
  \<open>forward(idx)\<close>. The message of the assertion on the index shape is given without
  the shape it prints.
\<close>

definition forward :: "context_model \<Rightarrow> int tensor option \<Rightarrow> error + real tensor" where
  "forward self idx =
     (case idx of
        None \<Rightarrow>
          if meta self then Inl (AssertionError ''idx should not be None when meta is True'')
          else Inr (to_device empty0 (device (context_hat self)))
      | Some ix \<Rightarrow>
          if shape ix = [] then Inl (IndexError ''tuple index out of range'')
          else if last (shape ix) \<noteq> 1
          then Inl (AssertionError ''last dim of idx should be 1'')
          else (case select_last ix 0 of
                  Inl e \<Rightarrow> Inl e
                | Inr ix0 \<Rightarrow> index_rows (context_hat self) ix0))"

section \<open>PlainMDPWorldModel\<close>

text \<open>
  Entries are real numbers: rounding is not part of the model. Underflow is. A result
  whose magnitude is at most half the least positive float becomes \<open>0\<close>; this is what
  lets a soft bound be attained and a variance vanish. The least positive float is
  \<open>1 / 2 ^ 149\<close> for torch's default \<open>float32\<close> and \<open>1 / 2 ^ 1074\<close> for
  NumPy's \<open>float64\<close>.
\<close>

definition underflow :: "real \<Rightarrow> real \<Rightarrow> real" where
  "underflow least v = (if \<bar>v\<bar> \<le> least / 2 then 0 else v)"

definition least_float32 :: real where
  "least_float32 = 1 / 2 ^ 149"

definition least_float64 :: real where
  "least_float64 = 1 / 2 ^ 1074"

text \<open>
  \<open>F.softplus\<close> with its defaults (\<open>beta = 1\<close>, \<open>threshold = 20\<close>): the
  logarithm of \<open>1 + exp z\<close>, and \<open>z\<close> itself above the threshold.
\<close>

definition softplus :: "real \<Rightarrow> real" where
  "softplus z = (if z > 20 then z else ln (1 + underflow least_float32 (exp z)))"

text \<open>
  The fields of the world model that \<open>get_log_var\<close> and \<open>get_outputs\<close> read;
  \<open>obs_dim\<close> and \<open>residual\<close> are set by the base class.
\<close>

record plain_mdp_world_model =
  obs_dim :: nat
  residual :: bool
  learn_obs_var :: bool
  log_var_bounds :: "real \<times> real"

text \<open>What \<open>get_log_var\<close> does to one entry of its argument.\<close>

definition get_log_var_entry :: "real \<times> real \<Rightarrow> real \<Rightarrow> real" where
  "get_log_var_entry bounds log_var =
     (case bounds of (min_log_var, max_log_var) \<Rightarrow>
        let log_var1 = max_log_var - softplus (max_log_var - log_var)
        in min_log_var + softplus (log_var1 - min_log_var))"

definition get_log_var :: "plain_mdp_world_model \<Rightarrow> real tensor \<Rightarrow> real tensor" where
  "get_log_var self log_var =
     log_var\<lparr>data := map (get_log_var_entry (log_var_bounds self)) (data log_var)\<rparr>"

text \<open>Running on after a step that may raise.\<close>

definition and_then :: "'e + 'a \<Rightarrow> ('a \<Rightarrow> 'e + 'b) \<Rightarrow> 'e + 'b" where
  "and_then m f = (case m of Inl e \<Rightarrow> Inl e | Inr v \<Rightarrow> f v)"

text \<open>
  A bound of a Python slice over \<open>m\<close> positions: a negative bound counts from the
  end, and every bound is cut to \<open>0..m\<close>.
\<close>

definition slice_bound :: "nat \<Rightarrow> int \<Rightarrow> nat" where
  "slice_bound m v = (if v < 0 then nat (max 0 (int m + v)) else min m (nat v))"

text \<open>\<open>t[:, a:b]\<close>, with \<open>None\<close> for a bound that is left out.\<close>

definition slice_dim1 :: "'a tensor \<Rightarrow> int option \<Rightarrow> int option \<Rightarrow> error + 'a tensor" where
  "slice_dim1 t a b =
     (case shape t of
        n # m # rest \<Rightarrow>
          let lo = (case a of None \<Rightarrow> 0 | Some v \<Rightarrow> slice_bound m v);
              hi = (case b of None \<Rightarrow> m | Some v \<Rightarrow> slice_bound m v);
              w = numel rest
          in Inr \<lparr>shape = n # (hi - lo) # rest,
                    data = concat (map (\<lambda>r. take ((hi - lo) * w) (drop ((r * m + lo) * w) (data t)))
                                       [0..<n]),
                    device = device t\<rparr>
      | _ \<Rightarrow> Inl (IndexError ''too many indices for tensor''))"

text \<open>\<open>t.reshape(*s)\<close> for a shape \<open>s\<close> of known sizes.\<close>

definition reshape :: "'a tensor \<Rightarrow> nat list \<Rightarrow> error + 'a tensor" where
  "reshape t s =
     (if numel s = numel (shape t) then Inr (t\<lparr>shape := s\<rparr>)
      else Inl (RuntimeError ''shape is invalid for input of this size''))"

definition zeros_like :: "real tensor \<Rightarrow> real tensor" where
  "zeros_like t = t\<lparr>data := map (\<lambda>_. 0) (data t)\<rparr>"

text \<open>
  \<open>a + b\<close> with broadcasting. Shapes are compared from the last dimension backwards;
  two sizes go together when they are equal or one of them is 1. An entry of the result
  at flat position \<open>k\<close> reads each operand at the position \<open>k\<close> projects to.
\<close>

fun broadcast_rev :: "nat list \<Rightarrow> nat list \<Rightarrow> nat list option" where
  "broadcast_rev [] ys = Some ys"
| "broadcast_rev (x # xs) [] = Some (x # xs)"
| "broadcast_rev (x # xs) (y # ys) =
     (if x = y \<or> y = 1 then map_option ((#) x) (broadcast_rev xs ys)
      else if x = 1 then map_option ((#) y) (broadcast_rev xs ys)
      else None)"

fun project_rev :: "nat list \<Rightarrow> nat list \<Rightarrow> nat \<Rightarrow> nat" where
  "project_rev (d # ds) (a # as) k =
     (if a = 1 then 0 else k mod d) + a * project_rev ds as (k div d)"
| "project_rev _ _ k = 0"

definition tadd :: "real tensor \<Rightarrow> real tensor \<Rightarrow> error + real tensor" where
  "tadd a b =
     (case broadcast_rev (rev (shape a)) (rev (shape b)) of
        None \<Rightarrow> Inl (RuntimeError ''The size of tensor a must match the size of tensor b'')
      | Some s \<Rightarrow>
          Inr \<lparr>shape = rev s,
               data = map (\<lambda>k. data a ! project_rev s (rev (shape a)) k
                              + data b ! project_rev s (rev (shape b)) k)
                          [0..<numel s],
               device = device a\<rparr>)"

text \<open>
  \<open>get_outputs(mean, log_var, observation, batch_size)\<close>: the five tensors it returns,
  in the order of the source.
\<close>

definition get_outputs ::
  "plain_mdp_world_model \<Rightarrow> real tensor \<Rightarrow> real tensor \<Rightarrow> real tensor \<Rightarrow> nat list
   \<Rightarrow> error + (real tensor \<times> real tensor \<times> real tensor \<times> real tensor \<times> real tensor)" where
  "get_outputs self mean log_var observation batch_size =
     and_then (slice_dim1 mean None (Some (- 2))) (\<lambda>next_obs_mean0.
     and_then (slice_dim1 mean (Some (- 2)) (Some (- 1))) (\<lambda>reward_mean0.
     and_then (slice_dim1 mean (Some (- 1)) None) (\<lambda>terminated0.
     and_then (slice_dim1 log_var None (Some (- 2))) (\<lambda>obs_raw.
     and_then (slice_dim1 log_var (Some (- 2)) (Some (- 1))) (\<lambda>reward_raw.
     let next_obs_log_var0 =
           (if learn_obs_var self then get_log_var self obs_raw else zeros_like obs_raw);
         reward_log_var0 =
           (if learn_obs_var self then get_log_var self reward_raw else zeros_like reward_raw)
     in
     and_then (reshape next_obs_mean0 (batch_size @ [obs_dim self])) (\<lambda>next_obs_mean1.
     and_then (if residual self then tadd observation next_obs_mean1 else Inr next_obs_mean1)
       (\<lambda>next_obs_mean.
     and_then (reshape next_obs_log_var0 (batch_size @ [obs_dim self])) (\<lambda>next_obs_log_var.
     and_then (reshape reward_mean0 (batch_size @ [1])) (\<lambda>reward_mean.
     and_then (reshape reward_log_var0 (batch_size @ [1])) (\<lambda>reward_log_var.
     and_then (reshape terminated0 (batch_size @ [1])) (\<lambda>terminated.
     Inr (next_obs_mean, next_obs_log_var, reward_mean, reward_log_var, terminated))))))))))))"

section \<open>Concrete inputs\<close>

text \<open>Generators, models and tensors at which the theorems below are evaluated.\<close>

definition zero_rng :: rng where
  "zero_rng i = 0"

definition count_rng :: rng where
  "count_rng i = real i"

definition cm0 :: context_model where
  "cm0 = \<lparr>meta = False, max_context_dim = 0, task_num = 0, init_scale = 0,
          context_hat = \<lparr>shape = [0, 0], data = [], device = CPU\<rparr>\<rparr>"

definition cm1 :: context_model where
  "cm1 = \<lparr>meta = True, max_context_dim = 2, task_num = 3, init_scale = 1/2,
          context_hat = \<lparr>shape = [3, 2], data = [1, 2, 3, 4, 5, 6], device = CUDA 0\<rparr>\<rparr>"

definition obs1 :: "real tensor" where
  "obs1 = \<lparr>shape = [2, 2], data = [1, 2, 3, 4], device = CPU\<rparr>"

definition idx1 :: "int tensor" where
  "idx1 = \<lparr>shape = [2, 1], data = [2, 0], device = CUDA 0\<rparr>"

definition idx_bad :: "int tensor" where
  "idx_bad = \<lparr>shape = [1, 2], data = [2, 0], device = CUDA 0\<rparr>"

definition wm1 :: plain_mdp_world_model where
  "wm1 = \<lparr>obs_dim = 1, residual = True, learn_obs_var = False, log_var_bounds = (-10, 1/2)\<rparr>"

definition mean1 :: "real tensor" where
  "mean1 = \<lparr>shape = [1, 3], data = [0, 7, 8], device = CPU\<rparr>"

definition log_var1 :: "real tensor" where
  "log_var1 = \<lparr>shape = [1, 3], data = [1, 2, 3], device = CPU\<rparr>"

definition obs2 :: "real tensor" where
  "obs2 = \<lparr>shape = [1, 1], data = [5], device = CPU\<rparr>"

section \<open>Arrays and the library routines behind mean_corr_coef\<close>

text \<open>
  The arguments of \<open>mean_corr_coef\<close> are two-dimensional NumPy arrays of shape
  \<open>[nrows, ncols]\<close>, entries in row-major order; the type has no array of another rank.
  A float that is not a real number (\<open>nan\<close>) is \<open>None\<close>.
\<close>

type_synonym fnum = "real option"

record array2 =
  nrows :: nat
  ncols :: nat
  cells :: "real list"


definition column :: "array2 \<Rightarrow> nat \<Rightarrow> real list" where
  "column a j = map (\<lambda>i. cells a ! (i * ncols a + j)) [0..<nrows a]"

definition columns :: "array2 \<Rightarrow> real list list" where
  "columns a = map (column a) [0..<ncols a]"

text \<open>
  \<open>np.corrcoef\<close> on a list of variables, by its documented formula: the covariance
  with \<open>N - 1\<close> in the denominator, divided by both standard deviations and clipped to
  \<open>[-1, 1]\<close>. With fewer than two observations or a variable whose variance comes out
  as \<open>0\<close> the entry is \<open>0 / 0\<close>, which is \<open>nan\<close>. A single variable gives a
  scalar, not a matrix. With \<open>rowvar=False\<close> the columns are the variables for any
  number of rows, as in NumPy 2. Where rounding decides whether a variance is \<open>0\<close>,
  NumPy's result is not this model's; the theorems on the score are therefore stated
  for whatever the correlation routine returns.
\<close>

definition mean_list :: "real list \<Rightarrow> real" where
  "mean_list u = sum_list u / real (length u)"

definition cov :: "real list \<Rightarrow> real list \<Rightarrow> real" where
  "cov u v =
     underflow least_float64
       ((\<Sum>(a, b)\<leftarrow>zip u v. underflow least_float64 ((a - mean_list u) * (b - mean_list v)))
        / (real (length u) - 1))"

definition pearson_r :: "real list \<Rightarrow> real list \<Rightarrow> real" where
  "pearson_r u v = max (- 1) (min 1 (cov u v / sqrt (cov u u) / sqrt (cov v v)))"

definition corr_entry :: "real list \<Rightarrow> real list \<Rightarrow> fnum" where
  "corr_entry u v =
     (if length u < 2 \<or> cov u u = 0 \<or> cov v v = 0 then None else Some (pearson_r u v))"

datatype corr_result = CorrFloat fnum | CorrScalar fnum | CorrMatrix "fnum list list"

definition np_corrcoef :: "real list list \<Rightarrow> corr_result" where
  "np_corrcoef vars =
     (case vars of
        [u] \<Rightarrow> CorrScalar (corr_entry u u)
      | _ \<Rightarrow> CorrMatrix (map (\<lambda>u. map (corr_entry u) vars) vars))"

text \<open>
  \<open>np.corrcoef(x, y, rowvar=False)\<close>: the columns of \<open>x\<close>, then those of \<open>y\<close>. When
  \<open>x\<close> has no column the covariance routine returns an empty matrix before it looks
  at \<open>y\<close>.
\<close>

definition corrcoef_xy :: "array2 \<Rightarrow> array2 \<Rightarrow> error + corr_result" where
  "corrcoef_xy x y =
     (if ncols x = 0 then Inr (CorrMatrix [])
      else if nrows x \<noteq> nrows y
      then Inl (ValueError ''all the input array dimensions except for the concatenation axis must match exactly'')
      else Inr (np_corrcoef (columns x @ columns y)))"

text \<open>
  \<open>scipy.stats.spearmanr(x, y)[0]\<close>: the columns are stacked and ranked (ties get the
  average rank), and \<open>np.corrcoef\<close> runs on the ranks. The result is not a matrix
  when there is at most one observation or one of the first two variables is constant
  (the Python float \<open>nan\<close>), and when there are two variables in all (a NumPy scalar).
\<close>

definition rankdata :: "real list \<Rightarrow> real list" where
  "rankdata u =
     map (\<lambda>a. real (length (filter (\<lambda>b. b < a) u))
               + (real (length (filter (\<lambda>b. b = a) u)) + 1) / 2) u"

definition is_constant :: "real list \<Rightarrow> bool" where
  "is_constant u = list_all (\<lambda>a. a = hd u) u"

definition spearmanr :: "array2 \<Rightarrow> array2 \<Rightarrow> error + corr_result" where
  "spearmanr x y =
     (if nrows x \<noteq> nrows y
      then Inl (ValueError ''all the input array dimensions except for the concatenation axis must match exactly'')
      else let vars = columns x @ columns y in
        if nrows x \<le> 1 then Inr (CorrFloat None)
        else (case vars of
                u # v # rest \<Rightarrow>
                  if is_constant u \<or> is_constant v then Inr (CorrFloat None)
                  else (case np_corrcoef (map rankdata vars) of
                          CorrFloat s \<Rightarrow> Inr (CorrFloat s)
                        | CorrScalar s \<Rightarrow> Inr (CorrScalar s)
                        | CorrMatrix rs \<Rightarrow>
                            if rest = [] then Inr (CorrScalar (rs ! 1 ! 0))
                            else Inr (CorrMatrix rs))
              | _ \<Rightarrow> Inl (IndexError ''index 1 is out of bounds for axis 1'')))"

text \<open>
  \<open>r[:d, d:]\<close>: the block of the first \<open>d\<close> rows and the columns from \<open>d\<close> on.
  Neither a Python float nor a NumPy scalar can be sliced.
\<close>

definition block :: "corr_result \<Rightarrow> nat \<Rightarrow> error + fnum list list" where
  "block r d =
     (case r of
        CorrFloat _ \<Rightarrow> Inl (TypeError ''float object is not subscriptable'')
      | CorrScalar _ \<Rightarrow> Inl (IndexError ''invalid index to scalar variable'')
      | CorrMatrix m \<Rightarrow> Inr (map (drop d) (take d m)))"

text \<open>Arithmetic on floats that may be \<open>nan\<close>.\<close>

definition fabs :: "fnum \<Rightarrow> fnum" where
  "fabs a = map_option abs a"

definition fscale :: "real \<Rightarrow> fnum \<Rightarrow> fnum" where
  "fscale k a = map_option (\<lambda>v. k * v) a"

fun fsum :: "fnum list \<Rightarrow> fnum" where
  "fsum [] = Some 0"
| "fsum (a # as) =
     (case a of None \<Rightarrow> None
      | Some v \<Rightarrow> (case fsum as of None \<Rightarrow> None | Some s \<Rightarrow> Some (v + s)))"

definition fdiv :: "fnum \<Rightarrow> nat \<Rightarrow> fnum" where
  "fdiv a n = (case a of None \<Rightarrow> None | Some s \<Rightarrow> if n = 0 then None else Some (s / real n))"

text \<open>\<open>cc[permutation]\<close> for a pair of index arrays: the entries at the paired positions.\<close>

definition pick :: "fnum list list \<Rightarrow> nat \<times> nat \<Rightarrow> error + fnum" where
  "pick m p =
     (case p of (i, j) \<Rightarrow>
        if i < length m \<and> j < length (m ! i) then Inr (m ! i ! j)
        else Inl (IndexError ''index is out of bounds''))"

definition index_pairs :: "fnum list list \<Rightarrow> nat list \<times> nat list \<Rightarrow> error + fnum list" where
  "index_pairs m permutation =
     (case permutation of (row_ind, col_ind) \<Rightarrow>
        if length row_ind \<noteq> length col_ind
        then Inl (IndexError ''shape mismatch: indexing arrays could not be broadcast together'')
        else sequence_sum (map (pick m) (zip row_ind col_ind)))"

section \<open>mean_corr_coef\<close>

text \<open>
  \<open>scipy.optimize.linear_sum_assignment\<close> is a parameter \<open>lsa\<close> of the model. The
  library calls are recorded in the order they are made, next to the outcome.
\<close>

datatype lib_call = Call_corrcoef | Call_spearmanr | Call_linear_sum_assignment

type_synonym solver = "fnum list list \<Rightarrow> error + (nat list \<times> nat list)"

definition mean_corr_coef ::
  "solver \<Rightarrow> array2 \<Rightarrow> array2 \<Rightarrow> string \<Rightarrow> bool
   \<Rightarrow> lib_call list \<times> (error + (fnum \<times> (nat list \<times> nat list) option))" where
  "mean_corr_coef lsa x y method return_permutation =
     (let d = ncols x;
          (calls, cc0) =
            (if method = ''pearson''
             then ([Call_corrcoef], and_then (corrcoef_xy x y) (\<lambda>r. block r d))
             else if method = ''spearman''
             then ([Call_spearmanr], and_then (spearmanr x y) (\<lambda>r. block r d))
             else ([], Inl (ValueError (''not a valid method: '' @ method))))
      in case cc0 of
           Inl e \<Rightarrow> (calls, Inl e)
         | Inr cc1 \<Rightarrow>
             let cc = map (map fabs) cc1
             in (calls @ [Call_linear_sum_assignment],
                 and_then (lsa (map (map (fscale (- 1))) cc)) (\<lambda>permutation.
                 and_then (index_pairs cc permutation) (\<lambda>picked.
                 let score = fdiv (fsum picked) (max (ncols x) (ncols y))
                 in if return_permutation then Inr (score, Some permutation)
                    else Inr (score, None)))))"

text \<open>
  The same function with the two correlation routines as parameters as well: what
  \<open>mean_corr_coef\<close> does with whatever the library returns.
\<close>

type_synonym corr_routine = "array2 \<Rightarrow> array2 \<Rightarrow> error + corr_result"

definition mean_corr_coef_with ::
  "corr_routine \<Rightarrow> corr_routine \<Rightarrow> solver \<Rightarrow> array2 \<Rightarrow> array2 \<Rightarrow> string \<Rightarrow> bool
   \<Rightarrow> lib_call list \<times> (error + (fnum \<times> (nat list \<times> nat list) option))" where
  "mean_corr_coef_with corrcoef spearman lsa x y method return_permutation =
     (let d = ncols x;
          (calls, cc0) =
            (if method = ''pearson''
             then ([Call_corrcoef], and_then (corrcoef x y) (\<lambda>r. block r d))
             else if method = ''spearman''
             then ([Call_spearmanr], and_then (spearman x y) (\<lambda>r. block r d))
             else ([], Inl (ValueError (''not a valid method: '' @ method))))
      in case cc0 of
           Inl e \<Rightarrow> (calls, Inl e)
         | Inr cc1 \<Rightarrow>
             let cc = map (map fabs) cc1
             in (calls @ [Call_linear_sum_assignment],
                 and_then (lsa (map (map (fscale (- 1))) cc)) (\<lambda>permutation.
                 and_then (index_pairs cc permutation) (\<lambda>picked.
                 let score = fdiv (fsum picked) (max (ncols x) (ncols y))
                 in if return_permutation then Inr (score, Some permutation)
                    else Inr (score, None)))))"

text \<open>
  What the solver is documented to return on a rectangular cost matrix of \<open>r\<close> rows and
  \<open>c\<close> columns: \<open>min r c\<close> pairs, the row indices increasing, no column twice, of least
  total cost among all such choices; a matrix with a \<open>nan\<close> entry is refused.
\<close>

definition valid_assignment :: "nat \<Rightarrow> nat \<Rightarrow> nat list \<times> nat list \<Rightarrow> bool" where
  "valid_assignment r c a =
     (case a of (row_ind, col_ind) \<Rightarrow>
        length row_ind = min r c \<and> length col_ind = min r c
        \<and> sorted_wrt (<) row_ind \<and> list_all (\<lambda>i. i < r) row_ind
        \<and> distinct col_ind \<and> list_all (\<lambda>j. j < c) col_ind)"

definition rect :: "fnum list list \<Rightarrow> nat \<Rightarrow> nat \<Rightarrow> bool" where
  "rect m r c = (length m = r \<and> list_all (\<lambda>line. length line = c) m)"

definition has_nan :: "fnum list list \<Rightarrow> bool" where
  "has_nan m = list_ex (list_ex (\<lambda>e. e = None)) m"

definition assign_cost :: "fnum list list \<Rightarrow> nat list \<times> nat list \<Rightarrow> real" where
  "assign_cost m a =
     (case a of (row_ind, col_ind) \<Rightarrow> (\<Sum>(i, j)\<leftarrow>zip row_ind col_ind. the (m ! i ! j)))"

definition lsa_spec :: "solver \<Rightarrow> bool" where
  "lsa_spec lsa =
     (\<forall>m r c. rect m r c \<longrightarrow>
        (if has_nan m
         then lsa m = Inl (ValueError ''matrix contains invalid numeric entries'')
         else (\<exists>a. lsa m = Inr a \<and> valid_assignment r c a
                  \<and> (\<forall>b. valid_assignment r c b \<longrightarrow> assign_cost m a \<le> assign_cost m b))))"

text \<open>
  A solver that meets this description by trying every choice; among choices of equal
  cost it returns the first it meets.
\<close>

fun inc_seqs :: "nat \<Rightarrow> nat \<Rightarrow> nat \<Rightarrow> nat list list" where
  "inc_seqs 0 lo r = [[]]"
| "inc_seqs (Suc k) lo r = concat (map (\<lambda>i. map ((#) i) (inc_seqs k (Suc i) r)) [lo..<r])"

fun inj_seqs :: "nat \<Rightarrow> nat list \<Rightarrow> nat list list" where
  "inj_seqs 0 js = [[]]"
| "inj_seqs (Suc k) js = concat (map (\<lambda>j. map ((#) j) (inj_seqs k (removeAll j js))) js)"

definition candidates :: "nat \<Rightarrow> nat \<Rightarrow> (nat list \<times> nat list) list" where
  "candidates r c =
     (let k = min r c
      in concat (map (\<lambda>row_ind. map (\<lambda>col_ind. (row_ind, col_ind)) (inj_seqs k [0..<c]))
                     (inc_seqs k 0 r)))"

definition lsa_brute :: solver where
  "lsa_brute m =
     (let r = length m; c = (case m of [] \<Rightarrow> 0 | first # _ \<Rightarrow> length first)
      in if has_nan m then Inl (ValueError ''matrix contains invalid numeric entries'')
         else (case candidates r c of
                 [] \<Rightarrow> Inl (ValueError ''cost matrix is infeasible'')
               | a # as \<Rightarrow> Inr (arg_min_list (assign_cost m) (a # as))))"

section \<open>ContextModel.get_mcc\<close>

text \<open>
  Modelled from the spec: \<open>causal_meta.stats.mcc.mean_corr_coef\<close>, which
  \<open>get_mcc\<close> imports, is not among the sources. The spec has one \<open>mean_corr_coef\<close>,
  which fails when the method is neither "pearson" nor "spearman"; it is taken to be
  the function of that name in \<open>tdfa/utils/metrics.py\<close>.
\<close>

definition stats_mcc_mean_corr_coef ::
  "solver \<Rightarrow> array2 \<Rightarrow> array2 \<Rightarrow> string \<Rightarrow> bool
   \<Rightarrow> lib_call list \<times> (error + (fnum \<times> (nat list \<times> nat list) option))" where
  "stats_mcc_mean_corr_coef = mean_corr_coef"

text \<open>
  \<open>t.detach().cpu().numpy()\<close> for the context table, and \<open>t[:, valid_idx]\<close>
  for a list of column indices. The constructor and \<open>reset\<close> only build tables of two
  dimensions; a table of another rank has no counterpart in \<open>array2\<close> and is
  given as an error.
\<close>

definition numpy2 :: "real tensor \<Rightarrow> error + array2" where
  "numpy2 t =
     (case shape t of
        [n, d] \<Rightarrow> Inr \<lparr>nrows = n, ncols = d, cells = data t\<rparr>
      | _ \<Rightarrow> Inl (ValueError ''context table is not two-dimensional''))"

definition col_index :: "nat \<Rightarrow> int \<Rightarrow> error + nat" where
  "col_index d j =
     (let k = (if j < 0 then int d + j else j)
      in if 0 \<le> k \<and> k < int d then Inr (nat k)
         else Inl (IndexError ''index is out of bounds for dimension 1''))"

definition select_columns :: "real tensor \<Rightarrow> int list \<Rightarrow> error + real tensor" where
  "select_columns t js =
     (case shape t of
        [n, d] \<Rightarrow>
          and_then (sequence_sum (map (col_index d) js)) (\<lambda>ks.
            Inr \<lparr>shape = [n, length ks],
                 data = concat (map (\<lambda>i. map (\<lambda>k. data t ! (i * d + k)) ks) [0..<n]),
                 device = device t\<rparr>)
      | _ \<Rightarrow> Inl (IndexError ''too many indices for tensor''))"

datatype mcc_result =
    Mcc fnum
  | Mcc_with_permutation fnum "nat list \<times> nat list" array2

definition get_mcc ::
  "solver \<Rightarrow> context_model \<Rightarrow> array2 \<Rightarrow> int list option \<Rightarrow> bool \<Rightarrow> string
   \<Rightarrow> error + mcc_result" where
  "get_mcc lsa self context_gt valid_idx return_permutation method =
     and_then (case valid_idx of
                 None \<Rightarrow> numpy2 (context_hat self)
               | Some js \<Rightarrow> and_then (select_columns (context_hat self) js) numpy2)
       (\<lambda>context_hat_np.
     and_then (snd (stats_mcc_mean_corr_coef lsa context_gt context_hat_np method True))
       (\<lambda>(mcc, permutation).
     if return_permutation
     then (case permutation of
             Some p \<Rightarrow> Inr (Mcc_with_permutation mcc p context_hat_np)
           | None \<Rightarrow> Inl (TypeError ''cannot unpack non-iterable float object''))
     else Inr (Mcc mcc)))"

text \<open>\<open>get_mcc(context_gt)\<close> with every optional argument left at its default.\<close>

definition get_mcc_default :: "solver \<Rightarrow> context_model \<Rightarrow> array2 \<Rightarrow> error + mcc_result" where
  "get_mcc_default lsa self context_gt = get_mcc lsa self context_gt None True ''kernel''"


section \<open>Notions used to state the properties of mean_corr_coef\<close>

text \<open>
  The coefficient a method assigns to two columns, the summed absolute coefficient over
  the pairs of an assignment, and what it means for an assignment to be optimal, or to be
  the only optimal one. A column is constant when all its entries are equal.
\<close>

definition coef :: "string \<Rightarrow> real list \<Rightarrow> real list \<Rightarrow> real" where
  "coef method u v =
     (if method = ''spearman'' then pearson_r (rankdata u) (rankdata v) else pearson_r u v)"

definition abs_corr_sum :: "string \<Rightarrow> array2 \<Rightarrow> array2 \<Rightarrow> nat list \<times> nat list \<Rightarrow> real" where
  "abs_corr_sum method x y a =
     (\<Sum>(i, j)\<leftarrow>zip (fst a) (snd a). \<bar>coef method (column x i) (column y j)\<bar>)"




text \<open>
  The summed absolute correlation over the pairs of an assignment, read from a block of
  correlations, and the correlation the block has at a pair.
\<close>

definition block_at :: "fnum list list \<Rightarrow> nat \<Rightarrow> nat \<Rightarrow> real" where
  "block_at cc i j = the (cc ! i ! j)"

definition block_sum :: "fnum list list \<Rightarrow> nat list \<times> nat list \<Rightarrow> real" where
  "block_sum cc a = (\<Sum>(i, j)\<leftarrow>zip (fst a) (snd a). \<bar>block_at cc i j\<bar>)"

text \<open>Every correlation between a column of \<open>x\<close> and a column of \<open>y\<close> is a number.\<close>

definition defined_block :: "array2 \<Rightarrow> array2 \<Rightarrow> bool" where
  "defined_block x y =
     (\<forall>u \<in> set (columns x). \<forall>v \<in> set (columns y). corr_entry u v \<noteq> None)"



text \<open>A matrix of numbers given by its entries, and a sum over the pairs of an assignment.\<close>

definition grid :: "nat \<Rightarrow> nat \<Rightarrow> (nat \<Rightarrow> nat \<Rightarrow> real) \<Rightarrow> fnum list list" where
  "grid d1 d2 g = map (\<lambda>i. map (\<lambda>j. Some (g i j)) [0..<d2]) [0..<d1]"

definition pair_sum :: "(nat \<Rightarrow> nat \<Rightarrow> real) \<Rightarrow> nat list \<times> nat list \<Rightarrow> real" where
  "pair_sum g a = (\<Sum>(i, j)\<leftarrow>zip (fst a) (snd a). g i j)"

text \<open>Arrays at which the theorems on \<open>mean_corr_coef\<close> are evaluated.\<close>

definition arr1 :: array2 where
  "arr1 = \<lparr>nrows = 2, ncols = 1, cells = [0, 1]\<rparr>"

definition arr_const :: array2 where
  "arr_const = \<lparr>nrows = 2, ncols = 1, cells = [1, 1]\<rparr>"



definition x3 :: array2 where
  "x3 = \<lparr>nrows = 3, ncols = 1, cells = [0, 1, 2]\<rparr>"

definition y3 :: array2 where
  "y3 = \<lparr>nrows = 3, ncols = 2, cells = [0, 0, 1, 1, 2, 0]\<rparr>"

section \<open>Facts about tensors\<close>

lemma concat_chunks:
  "length xs = m * w \<Longrightarrow> concat (map (\<lambda>r. take w (drop (r * w) xs)) [0..<m]) = xs"
proof (induction m arbitrary: xs rule: nat.induct)
  case zero
  then show ?case by simp
next
  case (Suc m)
  have a: "\<And>r. r < m \<Longrightarrow> take w (drop (r * w) (take (m * w) xs)) = take w (drop (r * w) xs)"
  proof -
    fix r assume "r < m"
    then have "Suc r \<le> m" by simp
    then have "Suc r * w \<le> m * w" by (rule mult_le_mono1)
    then have "w + r * w \<le> m * w" by simp
    then have "w \<le> m * w - r * w" by linarith
    then show "take w (drop (r * w) (take (m * w) xs)) = take w (drop (r * w) xs)"
      by (simp add: drop_take min_def)
  qed
  have b: "take w (drop (m * w) xs) = drop (m * w) xs"
    using Suc.prems by simp
  have c: "map (\<lambda>r. take w (drop (r * w) xs)) [0..<m]
           = map (\<lambda>r. take w (drop (r * w) (take (m * w) xs))) [0..<m]"
    by (rule map_cong) (simp_all add: a)
  have "concat (map (\<lambda>r. take w (drop (r * w) xs)) [0..<Suc m])
        = concat (map (\<lambda>r. take w (drop (r * w) xs)) [0..<m]) @ take w (drop (m * w) xs)"
    by simp
  then have "concat (map (\<lambda>r. take w (drop (r * w) xs)) [0..<Suc m])
        = concat (map (\<lambda>r. take w (drop (r * w) (take (m * w) xs))) [0..<m]) @ drop (m * w) xs"
    by (simp only: c b)
  also have "\<dots> = take (m * w) xs @ drop (m * w) xs"
    using Suc.IH[of "take (m * w) xs"] Suc.prems by simp
  finally show ?case by simp
qed

lemma numel_snoc: "s \<noteq> [] \<Longrightarrow> numel s = numel (butlast s) * last s"
proof -
  assume "s \<noteq> []"
  then have "s = butlast s @ [last s]" by simp
  then have "prod_list s = prod_list (butlast s @ [last s])" by simp
  then show ?thesis by (simp add: numel_def)
qed

lemma cat_last_empty0:
  assumes "wf_tensor obs" "shape obs \<noteq> []" "shape e = [0]"
  shows "cat_last [obs, e] = Inr obs"
proof (cases "shape obs = [0]")
  case True
  then have "data obs = []" using assms(1) by (simp add: wf_tensor_def numel_def)
  then show ?thesis using True assms(3) by (simp add: cat_last_def)
next
  case False
  have len: "length (data obs) = numel (butlast (shape obs)) * last (shape obs)"
    using assms(1,2) numel_snoc by (simp add: wf_tensor_def)
  have "concat (map (\<lambda>r. chunk_of obs r) [0..<numel (butlast (shape obs))]) = data obs"
    unfolding chunk_of_def Let_def using concat_chunks[OF len] .
  then show ?thesis using False assms(2,3) by (simp add: cat_last_def)
qed

lemma randn_ok:
  "0 \<le> n \<Longrightarrow> 0 \<le> m \<Longrightarrow>
   randn g n m = Inr (\<lparr>shape = [nat n, nat m], data = map g [0..<nat n * nat m], device = CPU\<rparr>,
                      \<lambda>i. g (i + nat n * nat m))"
  by (simp add: randn_def Let_def)

lemma sequence_sum_rows:
  "\<forall>i \<in> set xs. 0 \<le> i \<and> i < int n \<Longrightarrow>
   sequence_sum (map (index_one t n) xs) = Inr (map (\<lambda>i. row t (nat i)) xs)"
  by (induction xs) (simp_all add: index_one_def)

lemma select_last_squeeze:
  assumes "wf_tensor ix" and "shape ix = bs @ [1]"
  shows "select_last ix 0 = Inr \<lparr>shape = bs, data = data ix, device = device ix\<rparr>"
proof -
  have len: "length (data ix) = numel bs"
    using assms by (simp add: wf_tensor_def numel_def)
  have "map (\<lambda>k. data ix ! k) [0..<numel bs] = data ix"
    using len map_nth[of "data ix"] by simp
  then show ?thesis using assms(2) by (simp add: select_last_def)
qed

section \<open>ContextModel: reset and forward\<close>

text \<open>
  C3, as the code has it. \<open>reset\<close> does not fail when its argument is unset and no
  \<open>task_num\<close> was given at construction: an argument that is \<open>None\<close> or \<open>0\<close>
  falls back on the stored \<open>task_num\<close> (\<open>0\<close> by default). Whenever the resulting
  \<open>task_num\<close> and \<open>max_context_dim\<close> are not negative, \<open>reset\<close> returns, the table
  has \<open>task_num\<close> rows of \<open>max_context_dim\<close> entries, every entry is the generator's
  next standard-normal sample times \<open>init_scale\<close>, and the table stays on its device.
\<close>

theorem reset_reinitializes:
  assumes "0 \<le> py_or tn (task_num self)" and "0 \<le> max_context_dim self"
  shows "reset self tn g =
           (Inr (),
            self\<lparr>task_num := py_or tn (task_num self),
                 context_hat :=
                   \<lparr>shape = [nat (py_or tn (task_num self)), nat (max_context_dim self)],
                    data = map (\<lambda>i. g i * init_scale self)
                             [0..<nat (py_or tn (task_num self)) * nat (max_context_dim self)],
                    device = device (context_hat self)\<rparr>\<rparr>,
            \<lambda>i. g (i + nat (py_or tn (task_num self)) * nat (max_context_dim self)))"
  using assms by (simp add: reset_def Let_def randn_ok tscale_def to_device_def)

theorem reset_reinitializes_witness:
  "0 \<le> py_or (Some 2) (task_num cm1) \<and> 0 \<le> max_context_dim cm1 \<and>
   reset cm1 (Some 2) count_rng =
     (Inr (),
      cm1\<lparr>task_num := 2,
          context_hat := \<lparr>shape = [2, 2], data = [0, 1/2, 1, 3/2], device = CUDA 0\<rparr>\<rparr>,
      \<lambda>i. count_rng (i + 4))"
proof -
  have a: "0 \<le> py_or (Some 2) (task_num cm1)" by (simp add: py_or_def cm1_def)
  have b: "0 \<le> max_context_dim cm1" by (simp add: cm1_def)
  have c: "[0..<4] = [0, 1, 2, Suc 2]" by (simp add: upt_rec)
  show ?thesis
    using reset_reinitializes[OF a b, of count_rng]
    by (simp add: py_or_def cm1_def count_rng_def c)
qed

text \<open>
  C3 as stated fails: a model built with the constructor's defaults has no \<open>task_num\<close>
  given, and \<open>reset()\<close> on it returns normally, leaving a table of no rows.
\<close>

theorem reset_unset_counterexample:
  "ContextModel_default zero_rng = Inr (cm0, zero_rng) \<and>
   reset cm0 None zero_rng = (Inr (), cm0, zero_rng)"
  by (simp add: ContextModel_default_def ContextModel_def randn_def reset_def py_or_def
      cm0_def tscale_def to_device_def Let_def)

text \<open>
  C5. With meta mode off, \<open>forward(None)\<close> returns a tensor of shape \<open>[0]\<close> with no
  entries, on the table's device, and concatenating it after any observation tensor of
  at least one dimension along the last dimension gives back the observation, shape and
  entries. With meta mode on, \<open>forward(None)\<close> raises the assertion error.
\<close>

theorem forward_none_zero_length:
  "(meta self \<longrightarrow>
      forward self None = Inl (AssertionError ''idx should not be None when meta is True''))
   \<and> (\<not> meta self \<longrightarrow>
      (\<exists>e. forward self None = Inr e \<and> shape e = [0] \<and> data e = []
           \<and> device e = device (context_hat self)
           \<and> (\<forall>obs. wf_tensor obs \<and> shape obs \<noteq> [] \<longrightarrow> cat_last [obs, e] = Inr obs)))"
  by (auto simp add: forward_def empty0_def to_device_def intro!: cat_last_empty0)

theorem forward_none_zero_length_witness:
  "meta cm1 \<and> forward cm1 None = Inl (AssertionError ''idx should not be None when meta is True'')
   \<and> \<not> meta cm0 \<and> wf_tensor obs1 \<and> shape obs1 \<noteq> []
   \<and> forward cm0 None = Inr \<lparr>shape = [0], data = [], device = CPU\<rparr>
   \<and> cat_last [obs1, \<lparr>shape = [0], data = [], device = CPU\<rparr>] = Inr obs1"
proof -
  have a: "meta cm1" by (simp add: cm1_def)
  have b: "\<not> meta cm0" by (simp add: cm0_def)
  have c: "wf_tensor obs1 \<and> shape obs1 \<noteq> []" by (simp add: obs1_def wf_tensor_def numel_def)
  have d: "forward cm0 None = Inr \<lparr>shape = [0], data = [], device = CPU\<rparr>"
    by (simp add: forward_def cm0_def empty0_def to_device_def)
  show ?thesis
    using forward_none_zero_length[of cm1] forward_none_zero_length[of cm0] a b c d by auto
qed

text \<open>
  C6. For a well-formed index tensor of shape \<open>bs @ [1]\<close> whose entries lie in
  \<open>0..<n\<close>, where the table has \<open>n\<close> rows, \<open>forward\<close> returns the rows of the table
  at those entries, in order, with shape \<open>bs\<close> followed by the row shape. An index
  tensor with a last dimension other than 1 fails the assertion, and one without
  dimensions raises an index error.
\<close>

theorem forward_rows:
  "(wf_tensor ix \<and> shape ix = bs @ [1] \<and> shape (context_hat self) = n # rest
      \<and> (\<forall>i \<in> set (data ix). 0 \<le> i \<and> i < int n)
    \<longrightarrow> forward self (Some ix) =
          Inr \<lparr>shape = bs @ rest,
               data = concat (map (\<lambda>i. row (context_hat self) (nat i)) (data ix)),
               device = device (context_hat self)\<rparr>)
   \<and> (shape ix = [] \<longrightarrow> forward self (Some ix) = Inl (IndexError ''tuple index out of range''))
   \<and> (shape ix \<noteq> [] \<and> last (shape ix) \<noteq> 1
        \<longrightarrow> forward self (Some ix) = Inl (AssertionError ''last dim of idx should be 1''))"
proof (intro conjI impI)
  assume h: "wf_tensor ix \<and> shape ix = bs @ [1] \<and> shape (context_hat self) = n # rest
      \<and> (\<forall>i \<in> set (data ix). 0 \<le> i \<and> i < int n)"
  then have sel: "select_last ix 0 = Inr \<lparr>shape = bs, data = data ix, device = device ix\<rparr>"
    using select_last_squeeze by blast
  have seq: "sequence_sum (map (index_one (context_hat self) n) (data ix))
             = Inr (map (\<lambda>i. row (context_hat self) (nat i)) (data ix))"
    using h sequence_sum_rows by blast
  have ne: "shape ix \<noteq> []" and l1: "last (shape ix) = 1" using h by simp_all
  show "forward self (Some ix) =
          Inr \<lparr>shape = bs @ rest,
               data = concat (map (\<lambda>i. row (context_hat self) (nat i)) (data ix)),
               device = device (context_hat self)\<rparr>"
    using ne l1 h by (simp add: forward_def sel index_rows_def seq)
next
  assume "shape ix = []"
  then show "forward self (Some ix) = Inl (IndexError ''tuple index out of range'')"
    by (simp add: forward_def)
next
  assume "shape ix \<noteq> [] \<and> last (shape ix) \<noteq> 1"
  then show "forward self (Some ix) = Inl (AssertionError ''last dim of idx should be 1'')"
    by (simp add: forward_def)
qed

theorem forward_rows_witness:
  "wf_tensor idx1 \<and> shape idx1 = [2] @ [1] \<and> shape (context_hat cm1) = 3 # [2]
   \<and> list_all (\<lambda>i. 0 \<le> i \<and> i < int 3) (data idx1)
   \<and> forward cm1 (Some idx1) = Inr \<lparr>shape = [2, 2], data = [5, 6, 1, 2], device = CUDA 0\<rparr>
   \<and> last (shape idx_bad) \<noteq> 1
   \<and> forward cm1 (Some idx_bad) = Inl (AssertionError ''last dim of idx should be 1'')"
proof -
  have a: "wf_tensor idx1 \<and> shape idx1 = [2] @ [1] \<and> shape (context_hat cm1) = 3 # [2]
   \<and> (\<forall>i \<in> set (data idx1). 0 \<le> i \<and> i < int 3)"
    by (simp add: idx1_def cm1_def wf_tensor_def numel_def)
  have b: "shape idx_bad \<noteq> [] \<and> last (shape idx_bad) \<noteq> 1" by (simp add: idx_bad_def)
  have c: "forward cm1 (Some idx_bad) = Inl (AssertionError ''last dim of idx should be 1'')"
    by (simp add: forward_def idx_bad_def)
  have d: "concat (map (\<lambda>i. row (context_hat cm1) (nat i)) (data idx1)) = [5, 6, 1, 2]"
    by (simp add: row_def cm1_def idx1_def numel_def)
  show ?thesis
    using forward_rows[of idx1 "[2]" cm1 3 "[2]"] a b c d by (simp add: cm1_def list_all_iff)
qed

section \<open>PlainMDPWorldModel: the log-variance clamp\<close>

lemma underflow_bounds: "0 \<le> v \<Longrightarrow> 0 \<le> underflow least v \<and> underflow least v \<le> v"
  by (simp add: underflow_def)

lemma underflow_keep: "least / 2 < \<bar>v\<bar> \<Longrightarrow> underflow least v = v"
  by (simp add: underflow_def)

lemma underflow_zero: "\<bar>v\<bar> \<le> least / 2 \<Longrightarrow> underflow least v = 0"
  by (simp add: underflow_def)

lemma softplus_nonneg: "0 \<le> softplus z"
proof (cases "z > 20")
  case True
  then show ?thesis by (simp add: softplus_def)
next
  case False
  have "0 \<le> underflow least_float32 (exp z)"
    using underflow_bounds[of "exp z" least_float32] by simp
  then show ?thesis using False by (simp add: softplus_def)
qed

lemma ln1p_exp_gt: "(d::real) < ln (1 + exp d)"
proof -
  have "exp d < exp (ln (1 + exp d))" by (simp add: add_pos_pos)
  then show ?thesis by (simp only: exp_less_cancel_iff)
qed

lemma ln1p_exp_shift: "ln (1 + exp d) = (d::real) + ln (1 + exp (- d))"
proof -
  have "1 + exp d = exp d * (1 + exp (- d))"
    by (simp add: distrib_left mult_exp_exp)
  then have "ln (1 + exp d) = ln (exp d * (1 + exp (- d)))" by simp
  also have "\<dots> = ln (exp d) + ln (1 + exp (- d))"
    by (rule ln_mult_pos) (simp_all add: add_pos_pos)
  finally show ?thesis by simp
qed

lemma softplus_le_bound:
  assumes "z \<le> d"
  shows "softplus z \<le> max d (ln (1 + exp d))"
proof (cases "z > 20")
  case True
  then show ?thesis using assms by (simp add: softplus_def)
next
  case False
  have u: "0 \<le> underflow least_float32 (exp z)" "underflow least_float32 (exp z) \<le> exp z"
    using underflow_bounds[of "exp z" least_float32] by simp_all
  have "exp z \<le> exp d" using assms by simp
  then have "1 + underflow least_float32 (exp z) \<le> 1 + exp d" using u by linarith
  then have "ln (1 + underflow least_float32 (exp z)) \<le> ln (1 + exp d)"
    using u by (simp add: add_pos_pos add_pos_nonneg)
  then show ?thesis using False by (simp add: softplus_def)
qed

text \<open>
  What the clamp does keep: the value is never below \<open>min_log_var\<close> and never above
  \<open>max_log_var + ln 2\<close>.
\<close>

lemma get_log_var_within:
  assumes "min_log_var < max_log_var"
  shows "min_log_var \<le> get_log_var_entry (min_log_var, max_log_var) x
       \<and> get_log_var_entry (min_log_var, max_log_var) x \<le> max_log_var + ln 2"
proof -
  define inner where "inner = max_log_var - softplus (max_log_var - x)"
  have v: "get_log_var_entry (min_log_var, max_log_var) x
           = min_log_var + softplus (inner - min_log_var)"
    by (simp add: get_log_var_entry_def inner_def Let_def)
  have inner_le: "inner \<le> max_log_var"
    using softplus_nonneg[of "max_log_var - x"] by (simp add: inner_def)
  have lower: "min_log_var \<le> get_log_var_entry (min_log_var, max_log_var) x"
    using softplus_nonneg[of "inner - min_log_var"] by (simp add: v)
  have "softplus (inner - min_log_var)
          \<le> max (max_log_var - min_log_var) (ln (1 + exp (max_log_var - min_log_var)))"
    by (rule softplus_le_bound) (use inner_le in simp)
  also have "\<dots> = ln (1 + exp (max_log_var - min_log_var))"
    using ln1p_exp_gt[of "max_log_var - min_log_var"] by simp
  also have "\<dots> = (max_log_var - min_log_var) + ln (1 + exp (min_log_var - max_log_var))"
    using ln1p_exp_shift[of "max_log_var - min_log_var"] by simp
  finally have upper: "get_log_var_entry (min_log_var, max_log_var) x
           \<le> max_log_var + ln (1 + exp (min_log_var - max_log_var))"
    by (simp add: v)
  have "exp (min_log_var - max_log_var) \<le> 1" using assms by simp
  then have "ln (1 + exp (min_log_var - max_log_var)) \<le> ln 2"
    by (simp add: add_pos_pos)
  then show ?thesis using lower upper by simp
qed

lemma exp_neg_150: "exp (- 150 :: real) \<le> 1 / 2 ^ 150"
proof -
  have "(2::real) \<le> exp 1" using exp_ge_add_one_self[of "1::real"] by simp
  then have "(2::real) ^ 150 \<le> exp 1 ^ 150" by (rule power_mono) simp
  also have "\<dots> = exp (real 150 * 1)" by (simp only: exp_of_nat_mult)
  finally have "(2::real) ^ 150 \<le> exp 150" by simp
  then have "1 / exp (150::real) \<le> 1 / 2 ^ 150"
    by (intro divide_left_mono) simp_all
  then show ?thesis by (simp add: exp_minus inverse_eq_divide)
qed

text \<open>
  The lower bound is attained: at the default bounds and the input \<open>-1e6\<close> the
  exponential underflows and the value is \<open>-10\<close> itself.
\<close>

lemma get_log_var_attains_lower_bound: "get_log_var_entry (-10, 1/2) (- 1000000) = -10"
proof -
  have sp1: "softplus (1/2 - (- 1000000)) = 1/2 + 1000000"
    by (simp add: softplus_def)
  have "exp (- 999990 :: real) < exp (- 150)" by simp
  also have "\<dots> \<le> 1 / 2 ^ 150" by (rule exp_neg_150)
  finally have "\<bar>exp (- 999990 :: real)\<bar> \<le> least_float32 / 2"
    by (simp add: least_float32_def)
  then have "underflow least_float32 (exp (- 999990)) = 0"
    by (rule underflow_zero)
  then have sp2: "softplus (- 999990) = 0"
    by (simp add: softplus_def)
  have "1/2 - (1/2 + 1000000) - (- 10) = (- 999990 :: real)" by simp
  then show ?thesis
    unfolding get_log_var_entry_def Let_def prod.case sp1 by (simp add: sp2)
qed

text \<open>
  C1. The upper bound of the claim is not kept by the code. At the default bounds
  \<open>(-10, 0.5)\<close> and the input \<open>1e6\<close> the first softplus is \<open>0\<close>, the second is
  \<open>ln (1 + exp 10.5)\<close>, and the clamped value \<open>-10 + ln (1 + exp 10.5)\<close>, about
  \<open>0.5000275\<close>, is above \<open>max_log_var = 0.5\<close>.
\<close>

theorem get_log_var_exceeds_upper_bound:
  "data (get_log_var wm1 \<lparr>shape = [1], data = [1000000], device = CPU\<rparr>)
     = [-10 + ln (1 + exp (21/2))]
   \<and> get_log_var_entry (-10, 1/2) 1000000 = -10 + ln (1 + exp (21/2))
   \<and> 1/2 < get_log_var_entry (-10, 1/2) 1000000"
proof -
  have "exp (1/2 - 1000000 :: real) < exp (- 150)" by simp
  also have "\<dots> \<le> 1 / 2 ^ 150" by (rule exp_neg_150)
  finally have "\<bar>exp (1/2 - 1000000 :: real)\<bar> \<le> least_float32 / 2"
    by (simp add: least_float32_def)
  then have "underflow least_float32 (exp (1/2 - 1000000)) = 0"
    by (rule underflow_zero)
  then have sp1: "softplus (1/2 - 1000000) = 0"
    by (simp add: softplus_def)
  have "least_float32 / 2 \<le> 1" by (simp add: least_float32_def)
  also have "(1::real) < exp (21/2)" by simp
  finally have "least_float32 / 2 < \<bar>exp (21/2 :: real)\<bar>" by simp
  then have "underflow least_float32 (exp (21/2)) = exp (21/2)"
    by (rule underflow_keep)
  then have sp2: "softplus (21/2) = ln (1 + exp (21/2))"
    by (simp add: softplus_def)
  have v: "get_log_var_entry (-10, 1/2) 1000000 = -10 + ln (1 + exp (21/2))"
    using sp1 sp2 by (simp add: get_log_var_entry_def Let_def)
  have t: "data (get_log_var wm1 \<lparr>shape = [1], data = [1000000], device = CPU\<rparr>)
             = [get_log_var_entry (-10, 1/2) 1000000]"
    by (simp add: get_log_var_def wm1_def)
  have "21/2 < ln (1 + exp (21/2 :: real))" by (rule ln1p_exp_gt)
  then have "1/2 < get_log_var_entry (-10, 1/2) 1000000" using v by simp
  then show ?thesis using v t by (simp only: simp_thms)
qed

section \<open>PlainMDPWorldModel: residual prediction\<close>

lemma length_concat_chunks:
  "(\<And>r. r < n \<Longrightarrow> length (f r) = w) \<Longrightarrow> length (concat (map f [0..<n])) = n * w"
  by (induction n rule: nat.induct) simp_all

lemma nth_concat_chunks:
  "(\<And>r. r < n \<Longrightarrow> length (f r) = w) \<Longrightarrow> r < n \<Longrightarrow> c < w \<Longrightarrow>
   concat (map f [0..<n]) ! (r * w + c) = f r ! c"
proof (induction n rule: nat.induct)
  case zero
  then show ?case by simp
next
  case (Suc n)
  have len: "length (concat (map f [0..<n])) = n * w"
    using Suc.prems(1) by (intro length_concat_chunks) simp
  show ?case
  proof (cases "r < n")
    case True
    then have "Suc r \<le> n" by simp
    then have "Suc r * w \<le> n * w" by (rule mult_le_mono1)
    then have "r * w + c < n * w" using Suc.prems(3) by simp
    then show ?thesis using Suc True len by (simp add: nth_append)
  next
    case False
    then have "r = n" using Suc.prems(2) by simp
    then show ?thesis using len by (simp add: nth_append)
  qed
qed

lemma broadcast_rev_same: "broadcast_rev s s = Some s"
  by (induction s) simp_all

lemma project_rev_same: "k < prod_list s \<Longrightarrow> project_rev s s k = k"
proof (induction s arbitrary: k)
  case Nil
  then show ?case by simp
next
  case (Cons d ds)
  have dpos: "0 < d" using Cons.prems by (cases d) simp_all
  have "k div d < prod_list ds"
    using Cons.prems dpos by (simp add: less_mult_imp_div_less mult.commute)
  then have ih: "project_rev ds ds (k div d) = k div d" by (rule Cons.IH)
  show ?case
  proof (cases "d = 1")
    case True
    then show ?thesis using ih by simp
  next
    case False
    then show ?thesis using ih by (simp add: mult.commute)
  qed
qed

lemma tadd_same_shape:
  assumes "shape a = shape b"
  shows "tadd a b = Inr \<lparr>shape = shape a,
                          data = map (\<lambda>k. data a ! k + data b ! k) [0..<numel (shape a)],
                          device = device a\<rparr>"
proof -
  have "\<And>k. k < numel (rev (shape a)) \<Longrightarrow> project_rev (rev (shape a)) (rev (shape a)) k = k"
    by (simp add: numel_def project_rev_same)
  then have "map (\<lambda>k. data a ! project_rev (rev (shape a)) (rev (shape a)) k
                      + data b ! project_rev (rev (shape a)) (rev (shape a)) k)
                 [0..<numel (rev (shape a))]
             = map (\<lambda>k. data a ! k + data b ! k) [0..<numel (rev (shape a))]"
    by (intro map_cong) simp_all
  moreover have "numel (rev (shape a)) = numel (shape a)" by (simp add: numel_def)
  ultimately show ?thesis
    using assms by (simp add: tadd_def broadcast_rev_same)
qed

lemma slice_obs_part:
  assumes "shape t = [n, w + 2]"
  shows "slice_dim1 t None (Some (- 2)) =
           Inr \<lparr>shape = [n, w],
                data = concat (map (\<lambda>r. take w (drop (r * (w + 2)) (data t))) [0..<n]),
                device = device t\<rparr>"
  using assms by (simp add: slice_dim1_def slice_bound_def numel_def Let_def)

lemma slice_reward_part:
  assumes "shape t = [n, w + 2]"
  shows "\<exists>d. slice_dim1 t (Some (- 2)) (Some (- 1)) = Inr \<lparr>shape = [n, 1], data = d, device = device t\<rparr>"
  using assms by (simp add: slice_dim1_def slice_bound_def numel_def Let_def)

lemma slice_last_part:
  assumes "shape t = [n, w + 2]"
  shows "\<exists>d. slice_dim1 t (Some (- 1)) None = Inr \<lparr>shape = [n, 1], data = d, device = device t\<rparr>"
  using assms by (simp add: slice_dim1_def slice_bound_def numel_def Let_def)

lemma reshape_ok: "numel s = numel (shape t) \<Longrightarrow> reshape t s = Inr (t\<lparr>shape := s\<rparr>)"
  by (simp add: reshape_def)

lemma numel_batch: "numel (bs @ [k]) = numel bs * k"
  by (simp add: numel_def)

text \<open>
  C9. In residual mode, for a network output \<open>mean\<close> of \<open>n\<close> rows and
  \<open>obs_dim + 2\<close> columns and an observation of batch shape \<open>batch_size\<close> with
  \<open>n\<close> rows in all, \<open>get_outputs\<close> returns, and every entry of the next-observation
  mean is the observation's entry plus the entry of the first \<open>obs_dim\<close> columns of
  \<open>mean\<close> at the same row and column. When those columns are zero, the
  next-observation mean is the observation itself.
\<close>

theorem get_outputs_residual:
  assumes "residual self"
    and "shape mean = [n, obs_dim self + 2]" and "wf_tensor mean"
    and "shape log_var = [n, obs_dim self + 2]"
    and "numel batch_size = n"
    and "shape observation = batch_size @ [obs_dim self]" and "wf_tensor observation"
  shows "\<exists>next_obs_mean others.
           get_outputs self mean log_var observation batch_size = Inr (next_obs_mean, others)
         \<and> shape next_obs_mean = batch_size @ [obs_dim self]
         \<and> length (data next_obs_mean) = n * obs_dim self
         \<and> (\<forall>r < n. \<forall>c < obs_dim self.
               data next_obs_mean ! (r * obs_dim self + c)
               = data observation ! (r * obs_dim self + c)
                 + data mean ! (r * (obs_dim self + 2) + c))
         \<and> ((\<forall>r < n. \<forall>c < obs_dim self. data mean ! (r * (obs_dim self + 2) + c) = 0)
              \<longrightarrow> next_obs_mean = observation)"
proof -
  define w where "w = obs_dim self"
  define delta where
    "delta = concat (map (\<lambda>r. take w (drop (r * (w + 2)) (data mean))) [0..<n])"
  define nm where
    "nm = \<lparr>shape = batch_size @ [w],
           data = map (\<lambda>k. data observation ! k + delta ! k) [0..<n * w],
           device = device observation\<rparr>"
  have sm: "shape mean = [n, w + 2]" and sl: "shape log_var = [n, w + 2]"
    and so: "shape observation = batch_size @ [w]"
    using assms by (simp_all add: w_def)
  have lm: "length (data mean) = n * (w + 2)"
    using assms(3) sm by (simp add: wf_tensor_def numel_def)
  have lo: "length (data observation) = n * w"
    using assms(5,7) so by (simp add: wf_tensor_def numel_batch)
  have chunk_len: "\<And>r. r < n \<Longrightarrow> length (take w (drop (r * (w + 2)) (data mean))) = w"
  proof -
    fix r assume "r < n"
    then have "Suc r \<le> n" by simp
    then have "Suc r * (w + 2) \<le> n * (w + 2)" by (rule mult_le_mono1)
    then have "r * (w + 2) + w \<le> n * (w + 2)" by simp
    then show "length (take w (drop (r * (w + 2)) (data mean))) = w"
      using lm by simp
  qed
  have s1: "slice_dim1 mean None (Some (- 2)) = Inr \<lparr>shape = [n, w], data = delta, device = device mean\<rparr>"
    using slice_obs_part[OF sm] by (simp add: delta_def)
  obtain d2 where s2: "slice_dim1 mean (Some (- 2)) (Some (- 1)) = Inr \<lparr>shape = [n, 1], data = d2, device = device mean\<rparr>"
    using slice_reward_part[OF sm] by blast
  obtain d3 where s3: "slice_dim1 mean (Some (- 1)) None = Inr \<lparr>shape = [n, 1], data = d3, device = device mean\<rparr>"
    using slice_last_part[OF sm] by blast
  obtain d4 where s4: "slice_dim1 log_var None (Some (- 2)) = Inr \<lparr>shape = [n, w], data = d4, device = device log_var\<rparr>"
    using slice_obs_part[OF sl] by blast
  obtain d5 where s5: "slice_dim1 log_var (Some (- 2)) (Some (- 1)) = Inr \<lparr>shape = [n, 1], data = d5, device = device log_var\<rparr>"
    using slice_reward_part[OF sl] by blast
  have nb: "numel (batch_size @ [w]) = n * w" "numel (batch_size @ [1]) = n"
    "numel [n, w] = n * w" "numel [n, 1] = n"
    "numel (batch_size @ [Suc 0]) = n" "numel [n, Suc 0] = n"
    using assms(5) by (simp_all add: numel_def)
  have add: "tadd observation \<lparr>shape = batch_size @ [w], data = delta, device = device mean\<rparr> = Inr nm"
    using tadd_same_shape[of observation "\<lparr>shape = batch_size @ [w], data = delta, device = device mean\<rparr>"]
    by (simp add: so nb nm_def)
  have run: "\<exists>others. get_outputs self mean log_var observation batch_size = Inr (nm, others)"
    using assms(1)
    by (simp add: get_outputs_def and_then_def s1 s2 s3 s4 s5 Let_def reshape_def nb
        get_log_var_def zeros_like_def w_def[symmetric] add)
  have delta_nth: "\<And>r c. r < n \<Longrightarrow> c < w \<Longrightarrow> delta ! (r * w + c) = data mean ! (r * (w + 2) + c)"
  proof -
    fix r c assume r: "r < n" and c: "c < w"
    have "delta ! (r * w + c) = take w (drop (r * (w + 2)) (data mean)) ! c"
      unfolding delta_def using chunk_len r c by (intro nth_concat_chunks) simp_all
    also have "\<dots> = data mean ! (r * (w + 2) + c)"
    proof -
      have "Suc r \<le> n" using r by simp
      then have "Suc r * (w + 2) \<le> n * (w + 2)" by (rule mult_le_mono1)
      then have "r * (w + 2) + c < length (data mean)" using lm c by simp
      then show ?thesis using c by simp
    qed
    finally show "delta ! (r * w + c) = data mean ! (r * (w + 2) + c)" .
  qed
  have in_range: "\<And>r c. r < n \<Longrightarrow> c < w \<Longrightarrow> r * w + c < n * w"
  proof -
    fix r c assume r: "r < n" and c: "c < w"
    have "Suc r \<le> n" using r by simp
    then have "Suc r * w \<le> n * w" by (rule mult_le_mono1)
    then show "r * w + c < n * w" using c by simp
  qed
  have pointwise: "\<forall>r < n. \<forall>c < w.
      data nm ! (r * w + c) = data observation ! (r * w + c) + data mean ! (r * (w + 2) + c)"
    using in_range delta_nth by (simp add: nm_def)
  have zero: "(\<forall>r < n. \<forall>c < w. data mean ! (r * (w + 2) + c) = 0) \<longrightarrow> nm = observation"
  proof
    assume z: "\<forall>r < n. \<forall>c < w. data mean ! (r * (w + 2) + c) = 0"
    have dz: "\<And>k. k < n * w \<Longrightarrow> delta ! k = 0"
    proof -
      fix k assume k: "k < n * w"
      then have wpos: "0 < w" by (cases w) simp_all
      have r: "k div w < n" using k wpos by (simp add: less_mult_imp_div_less)
      have c: "k mod w < w" using wpos by simp
      have "delta ! (k div w * w + k mod w) = data mean ! (k div w * (w + 2) + k mod w)"
        using delta_nth[OF r c] .
      moreover have "data mean ! (k div w * (w + 2) + k mod w) = 0"
        using z r c by blast
      moreover have "k div w * w + k mod w = k" by simp
      ultimately show "delta ! k = 0" by (simp only:)
    qed
    have "map (\<lambda>k. data observation ! k + delta ! k) [0..<n * w]
          = map (\<lambda>k. data observation ! k) [0..<n * w]"
      by (intro map_cong) (simp_all add: dz)
    also have "\<dots> = data observation"
      using lo map_nth[of "data observation"] by simp
    finally show "nm = observation" by (simp add: nm_def so)
  qed
  have "shape nm = batch_size @ [w]" "length (data nm) = n * w"
    by (simp_all add: nm_def)
  then show ?thesis using run pointwise zero unfolding w_def by blast
qed

theorem get_outputs_residual_witness:
  "residual wm1 \<and> shape mean1 = [1, obs_dim wm1 + 2] \<and> wf_tensor mean1
   \<and> shape log_var1 = [1, obs_dim wm1 + 2] \<and> numel [1] = 1
   \<and> shape obs2 = [1] @ [obs_dim wm1] \<and> wf_tensor obs2
   \<and> (\<exists>others. get_outputs wm1 mean1 log_var1 obs2 [1] = Inr (obs2, others))"
proof -
  have h1: "residual wm1" by (simp add: wm1_def)
  have h2: "shape mean1 = [1, obs_dim wm1 + 2]" by (simp add: wm1_def mean1_def)
  have h3: "wf_tensor mean1" by (simp add: wf_tensor_def mean1_def numel_def)
  have h4: "shape log_var1 = [1, obs_dim wm1 + 2]" by (simp add: wm1_def log_var1_def)
  have h5: "numel [1] = 1" by (simp add: numel_def)
  have h6: "shape obs2 = [1] @ [obs_dim wm1]" by (simp add: wm1_def obs2_def)
  have h7: "wf_tensor obs2" by (simp add: wf_tensor_def obs2_def numel_def)
  have z: "\<forall>r < 1. \<forall>c < obs_dim wm1. data mean1 ! (r * (obs_dim wm1 + 2) + c) = 0"
    by (simp add: wm1_def mean1_def)
  from get_outputs_residual[OF h1 h2 h3 h4 h5 h6 h7] z
  have "\<exists>others. get_outputs wm1 mean1 log_var1 obs2 [1] = Inr (obs2, others)"
    by blast
  then show ?thesis using h1 h2 h3 h4 h5 h6 h7 by simp
qed

section \<open>mean_corr_coef: the method argument\<close>

text \<open>
  C4. For every method string other than "pearson" and "spearman",
  \<open>mean_corr_coef\<close> raises the value error naming the method, and it has made no
  library call before: neither correlation routine and not the assignment solver.
\<close>

theorem mean_corr_coef_invalid_method:
  assumes "method \<noteq> ''pearson''" and "method \<noteq> ''spearman''"
  shows "mean_corr_coef lsa x y method return_permutation
         = ([], Inl (ValueError (''not a valid method: '' @ method)))"
  using assms by (simp add: mean_corr_coef_def Let_def)

theorem mean_corr_coef_invalid_method_witness:
  "''kendall'' \<noteq> ''pearson'' \<and> ''kendall'' \<noteq> ''spearman''
   \<and> mean_corr_coef lsa_brute arr1 arr1 ''kendall'' False
       = ([], Inl (ValueError ''not a valid method: kendall''))"
proof -
  have a: "''kendall'' \<noteq> ''pearson''" and b: "''kendall'' \<noteq> ''spearman''" by simp_all
  show ?thesis
    using mean_corr_coef_invalid_method[OF a b, of lsa_brute arr1 arr1 False] by simp
qed

text \<open>
  C10. The default method of \<open>get_mcc\<close> is "kernel". For a context table of two
  dimensions and every ground-truth matrix, \<open>get_mcc\<close> called with its defaults raises
  the value error of \<open>mean_corr_coef\<close>; with any choice of the other two arguments
  and the method left at its default it raises some error, and never returns a score.
\<close>

theorem get_mcc_default_raises:
  assumes "shape (context_hat self) = [n, d]"
  shows "get_mcc_default lsa self context_gt = Inl (ValueError ''not a valid method: kernel'')
       \<and> (\<exists>e. get_mcc lsa self context_gt valid_idx return_permutation ''kernel'' = Inl e)"
proof
  show "get_mcc_default lsa self context_gt = Inl (ValueError ''not a valid method: kernel'')"
    using assms
    by (simp add: get_mcc_default_def get_mcc_def numpy2_def and_then_def
        stats_mcc_mean_corr_coef_def mean_corr_coef_def Let_def)
next
  have bad: "\<And>a. snd (stats_mcc_mean_corr_coef lsa context_gt a ''kernel'' True)
                 = Inl (ValueError ''not a valid method: kernel'')"
    by (simp add: stats_mcc_mean_corr_coef_def mean_corr_coef_def Let_def)
  show "\<exists>e. get_mcc lsa self context_gt valid_idx return_permutation ''kernel'' = Inl e"
  proof (cases valid_idx)
    case None
    then show ?thesis using assms by (simp add: get_mcc_def numpy2_def and_then_def bad)
  next
    case (Some js)
    show ?thesis
    proof (cases "sequence_sum (map (col_index d) js)")
      case (Inl e)
      then show ?thesis using assms Some
        by (simp add: get_mcc_def select_columns_def and_then_def)
    next
      case (Inr ks)
      then show ?thesis using assms Some
        by (simp add: get_mcc_def select_columns_def numpy2_def and_then_def bad)
    qed
  qed
qed

theorem get_mcc_default_raises_witness:
  "shape (context_hat cm1) = [3, 2]
   \<and> get_mcc_default lsa_brute cm1 arr1 = Inl (ValueError ''not a valid method: kernel'')"
proof -
  have a: "shape (context_hat cm1) = [3, 2]" by (simp add: cm1_def)
  show ?thesis using get_mcc_default_raises[OF a, of lsa_brute arr1] a by simp
qed

section \<open>The exhaustive solver meets the description of the solver\<close>

lemma set_inc_seqs:
  "set (inc_seqs k lo r) = {s. length s = k \<and> sorted_wrt (<) s \<and> (\<forall>i \<in> set s. lo \<le> i \<and> i < r)}"
proof (induction k arbitrary: lo)
  case 0
  then show ?case by auto
next
  case (Suc k)
  show ?case
  proof (intro set_eqI iffI)
    fix s assume "s \<in> set (inc_seqs (Suc k) lo r)"
    then obtain i t where i: "lo \<le> i" "i < r" and t: "t \<in> set (inc_seqs k (Suc i) r)"
      and s: "s = i # t" by auto
    from t have "length t = k \<and> sorted_wrt (<) t \<and> (\<forall>j \<in> set t. Suc i \<le> j \<and> j < r)"
      using Suc.IH[of "Suc i"] by simp
    then show "s \<in> {s. length s = Suc k \<and> sorted_wrt (<) s \<and> (\<forall>i \<in> set s. lo \<le> i \<and> i < r)}"
      using i s by auto
  next
    fix s assume "s \<in> {s. length s = Suc k \<and> sorted_wrt (<) s \<and> (\<forall>i \<in> set s. lo \<le> i \<and> i < r)}"
    then have len: "length s = Suc k" and srt: "sorted_wrt (<) s"
      and rng: "\<forall>i \<in> set s. lo \<le> i \<and> i < r" by simp_all
    from len obtain i t where s: "s = i # t" by (cases s) simp_all
    have "t \<in> set (inc_seqs k (Suc i) r)"
      using Suc.IH[of "Suc i"] len srt rng s by auto
    moreover have "lo \<le> i" "i < r" using rng s by simp_all
    ultimately show "s \<in> set (inc_seqs (Suc k) lo r)" using s by auto
  qed
qed

lemma set_inj_seqs:
  "set (inj_seqs k js) = {s. length s = k \<and> distinct s \<and> set s \<subseteq> set js}"
proof (induction k arbitrary: js)
  case 0
  then show ?case by auto
next
  case (Suc k)
  show ?case
  proof (intro set_eqI iffI)
    fix s assume "s \<in> set (inj_seqs (Suc k) js)"
    then obtain j t where j: "j \<in> set js" and t: "t \<in> set (inj_seqs k (removeAll j js))"
      and s: "s = j # t" by auto
    from t have "length t = k \<and> distinct t \<and> set t \<subseteq> set (removeAll j js)"
      using Suc.IH[of "removeAll j js"] by simp
    then show "s \<in> {s. length s = Suc k \<and> distinct s \<and> set s \<subseteq> set js}"
      using j s by auto
  next
    fix s assume "s \<in> {s. length s = Suc k \<and> distinct s \<and> set s \<subseteq> set js}"
    then have len: "length s = Suc k" and dis: "distinct s" and sub: "set s \<subseteq> set js"
      by simp_all
    from len obtain j t where s: "s = j # t" by (cases s) simp_all
    have "t \<in> set (inj_seqs k (removeAll j js))"
      using Suc.IH[of "removeAll j js"] len dis sub s by auto
    moreover have "j \<in> set js" using sub s by simp
    ultimately show "s \<in> set (inj_seqs (Suc k) js)" using s by auto
  qed
qed

lemma in_candidates:
  "(rs, cs) \<in> set (candidates r c)
   \<longleftrightarrow> rs \<in> set (inc_seqs (min r c) 0 r) \<and> cs \<in> set (inj_seqs (min r c) [0..<c])"
  by (auto simp add: candidates_def Let_def)

lemma set_candidates: "set (candidates r c) = {a. valid_assignment r c a}"
proof (intro set_eqI)
  fix a :: "nat list \<times> nat list"
  obtain rs cs where a: "a = (rs, cs)" by (cases a)
  have "cs \<in> set (inj_seqs (min r c) [0..<c])
        \<longleftrightarrow> length cs = min r c \<and> distinct cs \<and> (\<forall>j \<in> set cs. j < c)"
    by (auto simp add: set_inj_seqs)
  moreover have "rs \<in> set (inc_seqs (min r c) 0 r)
        \<longleftrightarrow> length rs = min r c \<and> sorted_wrt (<) rs \<and> (\<forall>i \<in> set rs. i < r)"
    by (simp add: set_inc_seqs)
  ultimately show "a \<in> set (candidates r c) \<longleftrightarrow> a \<in> {a. valid_assignment r c a}"
    unfolding a in_candidates by (auto simp add: valid_assignment_def list_all_iff)
qed

lemma valid_assignment_identity: "valid_assignment r c ([0..<min r c], [0..<min r c])"
  by (simp add: valid_assignment_def list_all_iff sorted_wrt_upt)

lemma candidates_nonempty: "candidates r c \<noteq> []"
proof -
  have "([0..<min r c], [0..<min r c]) \<in> set (candidates r c)"
    using valid_assignment_identity by (simp add: set_candidates)
  then show ?thesis by auto
qed

lemma valid_assignment_no_rows: "valid_assignment 0 c a \<longleftrightarrow> a = ([], [])"
  by (cases a) (auto simp add: valid_assignment_def)

lemma lsa_brute_meets_spec: "lsa_spec lsa_brute"
  unfolding lsa_spec_def
proof (intro allI impI)
  fix m r c assume re: "rect m r c"
  show "if has_nan m
        then lsa_brute m = Inl (ValueError ''matrix contains invalid numeric entries'')
        else (\<exists>a. lsa_brute m = Inr a \<and> valid_assignment r c a
                 \<and> (\<forall>b. valid_assignment r c b \<longrightarrow> assign_cost m a \<le> assign_cost m b))"
  proof (cases "has_nan m")
    case True
    then show ?thesis by (simp add: lsa_brute_def Let_def)
  next
    case False
    define c' where "c' = (case m of [] \<Rightarrow> 0 | first # _ \<Rightarrow> length first)"
    have r: "length m = r" using re by (simp add: rect_def)
    have same: "\<And>a. valid_assignment r c' a \<longleftrightarrow> valid_assignment r c a"
    proof (cases m)
      case Nil
      then have "r = 0" using r by simp
      then show "\<And>a. valid_assignment r c' a \<longleftrightarrow> valid_assignment r c a"
        by (simp add: valid_assignment_no_rows)
    next
      case (Cons first rest)
      then have "c' = c" using re by (simp add: c'_def rect_def)
      then show "\<And>a. valid_assignment r c' a \<longleftrightarrow> valid_assignment r c a" by simp
    qed
    define cs where "cs = candidates r c'"
    have ne: "cs \<noteq> []" by (simp add: cs_def candidates_nonempty)
    define a where "a = arg_min_list (assign_cost m) cs"
    have run: "lsa_brute m = Inr a"
      using False ne r
      by (simp add: lsa_brute_def Let_def c'_def[symmetric] cs_def[symmetric] a_def
          split: list.splits)
    have "a \<in> set cs" unfolding a_def using ne by (rule arg_min_list_in)
    then have va: "valid_assignment r c a" using same by (simp add: cs_def set_candidates)
    have best: "\<forall>b. valid_assignment r c b \<longrightarrow> assign_cost m a \<le> assign_cost m b"
    proof (intro allI impI)
      fix b assume "valid_assignment r c b"
      then have "b \<in> set cs" using same by (simp add: cs_def set_candidates)
      moreover have "assign_cost m a = Min (assign_cost m ` set cs)"
        unfolding a_def using ne by (rule f_arg_min_list_f)
      ultimately show "assign_cost m a \<le> assign_cost m b" by simp
    qed
    show ?thesis using False run va best by auto
  qed
qed

section \<open>The solver on a matrix of numbers\<close>

lemma grid_abs: "map (map fabs) (grid d1 d2 g) = grid d1 d2 (\<lambda>i j. \<bar>g i j\<bar>)"
  by (simp add: grid_def fabs_def)

lemma grid_scale: "map (map (fscale k)) (grid d1 d2 g) = grid d1 d2 (\<lambda>i j. k * g i j)"
  by (simp add: grid_def fscale_def)

lemma rect_grid: "rect (grid d1 d2 g) d1 d2"
  by (simp add: rect_def grid_def list_all_iff)

lemma no_nan_grid: "\<not> has_nan (grid d1 d2 g)"
  by (auto simp add: has_nan_def grid_def list_ex_iff)

lemma valid_pairs_in_range:
  assumes "valid_assignment d1 d2 (rs, cs)" and "(i, j) \<in> set (zip rs cs)"
  shows "i < d1 \<and> j < d2"
proof -
  have "i \<in> set rs" "j \<in> set cs" using assms(2) by (auto dest: set_zip_leftD set_zip_rightD)
  then show ?thesis using assms(1) by (simp add: valid_assignment_def list_all_iff)
qed

lemma assign_cost_grid:
  assumes "valid_assignment d1 d2 a"
  shows "assign_cost (grid d1 d2 g) a = pair_sum g a"
proof -
  obtain rs cs where a: "a = (rs, cs)" by (cases a)
  have "\<And>p. p \<in> set (zip rs cs) \<Longrightarrow>
          (case p of (i, j) \<Rightarrow> the (grid d1 d2 g ! i ! j)) = (case p of (i, j) \<Rightarrow> g i j)"
  proof -
    fix p assume p: "p \<in> set (zip rs cs)"
    obtain i j where ij: "p = (i, j)" by (cases p)
    have "i < d1 \<and> j < d2" using valid_pairs_in_range assms a p ij by blast
    then show "(case p of (i, j) \<Rightarrow> the (grid d1 d2 g ! i ! j)) = (case p of (i, j) \<Rightarrow> g i j)"
      by (simp add: ij grid_def)
  qed
  then have "map (\<lambda>(i, j). the (grid d1 d2 g ! i ! j)) (zip rs cs)
             = map (\<lambda>(i, j). g i j) (zip rs cs)"
    by (intro map_cong) simp_all
  then show ?thesis by (simp only: assign_cost_def pair_sum_def a prod.case fst_conv snd_conv)
qed

lemma sequence_sum_all_ok:
  "(\<And>p. p \<in> set ps \<Longrightarrow> f p = Inr (h p)) \<Longrightarrow> sequence_sum (map f ps) = Inr (map h ps)"
  by (induction ps) simp_all

lemma index_pairs_grid:
  assumes "valid_assignment d1 d2 a"
  shows "index_pairs (grid d1 d2 g) a = Inr (map (\<lambda>(i, j). Some (g i j)) (zip (fst a) (snd a)))"
proof -
  obtain rs cs where a: "a = (rs, cs)" by (cases a)
  have len: "length rs = length cs" using assms a by (simp add: valid_assignment_def)
  have "\<And>p. p \<in> set (zip rs cs) \<Longrightarrow>
          pick (grid d1 d2 g) p = Inr ((\<lambda>(i, j). Some (g i j)) p)"
  proof -
    fix p assume p: "p \<in> set (zip rs cs)"
    obtain i j where ij: "p = (i, j)" by (cases p)
    have "i < d1 \<and> j < d2" using valid_pairs_in_range assms a p ij by blast
    then show "pick (grid d1 d2 g) p = Inr ((\<lambda>(i, j). Some (g i j)) p)"
      by (simp add: ij pick_def grid_def)
  qed
  then have "sequence_sum (map (pick (grid d1 d2 g)) (zip rs cs))
             = Inr (map (\<lambda>(i, j). Some (g i j)) (zip rs cs))"
    by (rule sequence_sum_all_ok)
  then show ?thesis using len by (simp add: index_pairs_def a)
qed

lemma fsum_somes: "fsum (map (\<lambda>p. Some (h p)) ps) = Some (\<Sum>p\<leftarrow>ps. h p)"
  by (induction ps) simp_all

lemma fsum_pairs:
  "fsum (map (\<lambda>(i, j). Some (g i j)) (zip rs cs)) = Some (pair_sum g (rs, cs))"
proof -
  have "(\<lambda>(i, j). Some (g i j)) = (\<lambda>p. Some ((\<lambda>(i, j). g i j) p))" by auto
  then show ?thesis using fsum_somes[of "\<lambda>(i, j). g i j" "zip rs cs"]
    by (simp add: pair_sum_def)
qed

lemma pair_sum_neg: "pair_sum (\<lambda>i j. - 1 * g i j) a = - pair_sum g a"
proof -
  have "(\<Sum>p\<leftarrow>ps. - 1 * (case p of (i, j) \<Rightarrow> g i j)) = - (\<Sum>p\<leftarrow>ps. case p of (i, j) \<Rightarrow> g i j)" for ps
    by (induction ps) simp_all
  moreover have "(\<lambda>(i, j). - 1 * g i j) = (\<lambda>p. - 1 * (case p of (i, j) \<Rightarrow> g i j))" by auto
  ultimately show ?thesis by (simp add: pair_sum_def)
qed

text \<open>
  The solver on the negated absolute values of a matrix of numbers: what it returns, what
  is read off at the pairs it returns, and that no assignment has a larger sum.
\<close>

lemma solver_on_grid:
  assumes "lsa_spec lsa"
  shows "\<exists>a. lsa (map (map (fscale (- 1))) (map (map fabs) (grid d1 d2 g))) = Inr a
            \<and> valid_assignment d1 d2 a
            \<and> index_pairs (map (map fabs) (grid d1 d2 g)) a
                = Inr (map (\<lambda>(i, j). Some \<bar>g i j\<bar>) (zip (fst a) (snd a)))
            \<and> (\<forall>b. valid_assignment d1 d2 b
                   \<longrightarrow> pair_sum (\<lambda>i j. \<bar>g i j\<bar>) b \<le> pair_sum (\<lambda>i j. \<bar>g i j\<bar>) a)"
proof -
  define cost where "cost = grid d1 d2 (\<lambda>i j. - 1 * \<bar>g i j\<bar>)"
  have cost: "map (map (fscale (- 1))) (map (map fabs) (grid d1 d2 g)) = cost"
    by (simp add: grid_abs grid_scale cost_def)
  have "rect cost d1 d2" "\<not> has_nan cost" by (simp_all add: cost_def rect_grid no_nan_grid)
  then obtain a where a: "lsa cost = Inr a" "valid_assignment d1 d2 a"
    and best: "\<forall>b. valid_assignment d1 d2 b \<longrightarrow> assign_cost cost a \<le> assign_cost cost b"
    using assms unfolding lsa_spec_def by (metis (full_types))
  have opt: "\<forall>b. valid_assignment d1 d2 b
                   \<longrightarrow> pair_sum (\<lambda>i j. \<bar>g i j\<bar>) b \<le> pair_sum (\<lambda>i j. \<bar>g i j\<bar>) a"
  proof (intro allI impI)
    fix b assume b: "valid_assignment d1 d2 b"
    have "assign_cost cost a \<le> assign_cost cost b" using best b by blast
    then have "- pair_sum (\<lambda>i j. \<bar>g i j\<bar>) a \<le> - pair_sum (\<lambda>i j. \<bar>g i j\<bar>) b"
      using a(2) b by (simp only: cost_def assign_cost_grid pair_sum_neg)
    then show "pair_sum (\<lambda>i j. \<bar>g i j\<bar>) b \<le> pair_sum (\<lambda>i j. \<bar>g i j\<bar>) a" by simp
  qed
  have "index_pairs (map (map fabs) (grid d1 d2 g)) a
          = Inr (map (\<lambda>(i, j). Some \<bar>g i j\<bar>) (zip (fst a) (snd a)))"
    using index_pairs_grid[OF a(2)] by (simp add: grid_abs)
  then show ?thesis using a opt cost by auto
qed

section \<open>The block of cross-correlations\<close>

lemma np_corrcoef_matrix:
  "length vars \<noteq> 1 \<Longrightarrow> np_corrcoef vars = CorrMatrix (map (\<lambda>u. map (corr_entry u) vars) vars)"
  by (cases vars; cases "tl vars") (auto simp add: np_corrcoef_def split: list.splits)



lemma length_column: "length (column a j) = nrows a"
  by (simp add: column_def)


lemma block_sum_pair_sum: "block_sum cc a = pair_sum (\<lambda>i j. \<bar>block_at cc i j\<bar>) a"
  by (simp add: block_sum_def pair_sum_def)

lemma no_nan_entry:
  assumes "\<not> has_nan m" and "line \<in> set m" and "e \<in> set line"
  shows "e \<noteq> None"
proof
  assume "e = None"
  then have "list_ex (\<lambda>e. e = None) line"
    using assms(3) unfolding list_ex_iff by (intro bexI[of _ e])
  then have "has_nan m"
    unfolding has_nan_def list_ex_iff using assms(2) by (intro bexI[of _ line])
  then show False using assms(1) by simp
qed

lemma rect_no_nan_grid:
  assumes "rect cc1 d1 d2" and "\<not> has_nan cc1"
  shows "cc1 = grid d1 d2 (block_at cc1)"
proof -
  have l1: "length cc1 = d1" using assms(1) by (simp add: rect_def)
  have line: "cc1 ! i = map (\<lambda>j. Some (block_at cc1 i j)) [0..<d2]" if i: "i < d1" for i
  proof -
    have mem: "cc1 ! i \<in> set cc1" using i l1 by simp
    have len: "length (cc1 ! i) = d2"
      using assms(1) mem by (simp add: rect_def list_all_iff)
    have entry: "cc1 ! i ! j = Some (block_at cc1 i j)" if j: "j < d2" for j
    proof -
      have "cc1 ! i ! j \<in> set (cc1 ! i)" using j len by simp
      then have "cc1 ! i ! j \<noteq> None"
        using assms(2) mem by (intro no_nan_entry)
      then obtain v where "cc1 ! i ! j = Some v" by (cases "cc1 ! i ! j") simp_all
      then show ?thesis by (simp add: block_at_def)
    qed
    show ?thesis
      by (rule nth_equalityI) (simp_all add: len entry)
  qed
  show ?thesis
    by (rule nth_equalityI) (simp_all add: l1 grid_def line)
qed

lemma rect_cost: "rect cc1 r c \<Longrightarrow> rect (map (map f) cc1) r c"
  by (simp add: rect_def list_all_iff)

lemma has_nan_cost: "has_nan (map (map (fscale k)) (map (map fabs) cc1)) = has_nan cc1"
proof -
  have e: "(fscale k (fabs e) = None) = (e = None)" for e
    by (cases e) (simp_all add: fscale_def fabs_def)
  have "None \<in> (\<lambda>e. fscale k (fabs e)) ` set line \<longleftrightarrow> None \<in> set line" for line
    using e by (metis (mono_tags, lifting) image_iff)
  then show ?thesis by (simp add: has_nan_def list_ex_iff comp_def)
qed

section \<open>mean_corr_coef on whatever the correlation routine returns\<close>

lemma mean_corr_coef_model:
  "mean_corr_coef lsa = mean_corr_coef_with corrcoef_xy spearmanr lsa"
  by (intro ext) (simp add: mean_corr_coef_def mean_corr_coef_with_def)

lemma routine_tail:
  assumes "method = ''pearson'' \<or> method = ''spearman''"
    and "(if method = ''pearson'' then corrcoef x y else spearman x y) = Inr r"
    and "block r (ncols x) = Inr cc1"
  shows "snd (mean_corr_coef_with corrcoef spearman lsa x y method rp)
         = and_then (lsa (map (map (fscale (- 1))) (map (map fabs) cc1))) (\<lambda>permutation.
           and_then (index_pairs (map (map fabs) cc1) permutation) (\<lambda>picked.
           Inr (fdiv (fsum picked) (max (ncols x) (ncols y)),
                if rp then Some permutation else None)))"
proof (cases "method = ''pearson''")
  case True
  then have "and_then (corrcoef x y) (\<lambda>r. block r (ncols x)) = Inr cc1"
    using assms(2,3) by (simp add: and_then_def)
  then show ?thesis using True
    by (simp add: mean_corr_coef_with_def Let_def and_then_def split: sum.splits)
next
  case False
  then have sp: "method = ''spearman''" using assms(1) by simp
  have "and_then (spearman x y) (\<lambda>r. block r (ncols x)) = Inr cc1"
    using assms(2,3) False by (simp add: and_then_def)
  then show ?thesis using sp
    by (simp add: mean_corr_coef_with_def Let_def and_then_def split: sum.splits)
qed

lemma routine_run_defined:
  assumes "lsa_spec lsa"
    and "method = ''pearson'' \<or> method = ''spearman''"
    and "(if method = ''pearson'' then corrcoef x y else spearman x y) = Inr r"
    and "block r (ncols x) = Inr cc1"
    and "rect cc1 (ncols x) (ncols y)" and "\<not> has_nan cc1"
  shows "\<exists>a. (\<forall>rp. snd (mean_corr_coef_with corrcoef spearman lsa x y method rp)
               = Inr (fdiv (Some (block_sum cc1 a)) (max (ncols x) (ncols y)),
                      if rp then Some a else None))
           \<and> valid_assignment (ncols x) (ncols y) a
           \<and> (\<forall>b. valid_assignment (ncols x) (ncols y) b \<longrightarrow> block_sum cc1 b \<le> block_sum cc1 a)"
proof -
  define g where "g = block_at cc1"
  have cc: "cc1 = grid (ncols x) (ncols y) g"
    unfolding g_def using assms(5,6) by (rule rect_no_nan_grid)
  obtain a where a: "lsa (map (map (fscale (- 1))) (map (map fabs) (grid (ncols x) (ncols y) g))) = Inr a"
    and va: "valid_assignment (ncols x) (ncols y) a"
    and ip: "index_pairs (map (map fabs) (grid (ncols x) (ncols y) g)) a
                = Inr (map (\<lambda>(i, j). Some \<bar>g i j\<bar>) (zip (fst a) (snd a)))"
    and opt: "\<forall>b. valid_assignment (ncols x) (ncols y) b
                   \<longrightarrow> pair_sum (\<lambda>i j. \<bar>g i j\<bar>) b \<le> pair_sum (\<lambda>i j. \<bar>g i j\<bar>) a"
    using solver_on_grid[OF assms(1), of "ncols x" "ncols y" g] by blast
  have fs: "fsum (map (\<lambda>(i, j). Some \<bar>g i j\<bar>) (zip (fst a) (snd a)))
            = Some (pair_sum (\<lambda>i j. \<bar>g i j\<bar>) a)"
    using fsum_pairs[of "\<lambda>i j. \<bar>g i j\<bar>" "fst a" "snd a"] by simp
  have "snd (mean_corr_coef_with corrcoef spearman lsa x y method rp)
               = Inr (fdiv (Some (pair_sum (\<lambda>i j. \<bar>g i j\<bar>) a)) (max (ncols x) (ncols y)),
                      if rp then Some a else None)" for rp
    using routine_tail[where corrcoef=corrcoef and spearman=spearman and x=x and y=y
        and lsa=lsa and rp=rp, OF assms(2,3,4)] a ip fs
    by (simp add: cc[symmetric] and_then_def)
  then show ?thesis
    using va opt unfolding block_sum_pair_sum g_def by blast
qed

lemma routine_run_nan:
  assumes "lsa_spec lsa"
    and "method = ''pearson'' \<or> method = ''spearman''"
    and "(if method = ''pearson'' then corrcoef x y else spearman x y) = Inr r"
    and "block r (ncols x) = Inr cc1"
    and "rect cc1 (ncols x) (ncols y)" and "has_nan cc1"
  shows "snd (mean_corr_coef_with corrcoef spearman lsa x y method rp)
         = Inl (ValueError ''matrix contains invalid numeric entries'')"
proof -
  define cost where "cost = map (map (fscale (- 1))) (map (map fabs) cc1)"
  have "rect cost (ncols x) (ncols y)" "has_nan cost"
    unfolding cost_def using assms(5,6) by (simp_all only: rect_cost has_nan_cost)
  then have l: "lsa cost = Inl (ValueError ''matrix contains invalid numeric entries'')"
    using assms(1) unfolding lsa_spec_def by (metis (full_types))
  have "snd (mean_corr_coef_with corrcoef spearman lsa x y method rp)
         = and_then (lsa cost) (\<lambda>permutation.
           and_then (index_pairs (map (map fabs) cc1) permutation) (\<lambda>picked.
           Inr (fdiv (fsum picked) (max (ncols x) (ncols y)),
                if rp then Some permutation else None)))"
    unfolding cost_def
    by (rule routine_tail[where corrcoef=corrcoef and spearman=spearman and x=x and y=y
          and lsa=lsa and rp=rp, OF assms(2,3,4)])
  then show ?thesis by (simp add: l and_then_def)
qed

section \<open>Bounds on the summed correlation\<close>

lemma pearson_r_self:
  assumes "0 < cov u u"
  shows "pearson_r u u = 1"
proof -
  have "cov u u / sqrt (cov u u) = sqrt (cov u u)"
    using assms by (simp add: real_div_sqrt)
  moreover have "sqrt (cov u u) \<noteq> 0" using assms by simp
  ultimately have "cov u u / sqrt (cov u u) / sqrt (cov u u) = 1" by simp
  then show ?thesis by (simp add: pearson_r_def)
qed

lemma pearson_r_abs_le: "\<bar>pearson_r u v\<bar> \<le> 1"
  by (simp add: pearson_r_def abs_le_iff)

lemma coef_abs_le: "\<bar>coef method u v\<bar> \<le> 1"
  by (simp add: coef_def pearson_r_abs_le)

lemma sum_list_le_length:
  "(\<And>p. p \<in> set ps \<Longrightarrow> f p \<le> (1::real)) \<Longrightarrow> sum_list (map f ps) \<le> real (length ps)"
proof (induction ps)
  case Nil
  then show ?case by simp
next
  case (Cons p ps)
  have "f p \<le> 1" using Cons.prems by simp
  moreover have "sum_list (map f ps) \<le> real (length ps)" using Cons by simp
  ultimately show ?case by simp
qed

lemma abs_corr_sum_le:
  assumes "valid_assignment d1 d2 b"
  shows "abs_corr_sum method x y b \<le> real (min d1 d2)"
proof -
  obtain rs cs where b: "b = (rs, cs)" by (cases b)
  have len: "length (zip rs cs) = min d1 d2"
    using assms b by (simp add: valid_assignment_def)
  have "sum_list (map (\<lambda>(i, j). \<bar>coef method (column x i) (column y j)\<bar>) (zip rs cs))
        \<le> real (length (zip rs cs))"
    by (rule sum_list_le_length) (auto simp add: coef_abs_le)
  then show ?thesis using len by (simp add: abs_corr_sum_def b)
qed

section \<open>Permuted columns\<close>













section \<open>The Pearson run, case by case\<close>


lemma defined_block_no_columns: "ncols x = 0 \<Longrightarrow> defined_block x y"
  by (simp add: defined_block_def columns_def)








lemma pearson_tail:
  assumes "and_then (corrcoef_xy x y) (\<lambda>r. block r (ncols x)) = Inr cc1"
  shows "snd (mean_corr_coef lsa x y ''pearson'' rp)
         = and_then (lsa (map (map (fscale (- 1))) (map (map fabs) cc1))) (\<lambda>permutation.
           and_then (index_pairs (map (map fabs) cc1) permutation) (\<lambda>picked.
           Inr (fdiv (fsum picked) (max (ncols x) (ncols y)),
                if rp then Some permutation else None)))"
  using assms by (simp add: mean_corr_coef_def Let_def and_then_def split: sum.splits)








section \<open>Facts about the arrays the theorems are evaluated at\<close>

lemma underflow64_keep: "1 / 1000 \<le> \<bar>v\<bar> \<Longrightarrow> underflow least_float64 v = v"
proof -
  assume v: "1 / 1000 \<le> \<bar>v\<bar>"
  have "least_float64 / 2 \<le> 1 / 2" by (simp add: least_float64_def)
  moreover have "(2::real) ^ 10 \<le> 2 ^ 1074" by (rule power_increasing) simp_all
  then have "1 / (2::real) ^ 1074 \<le> 1 / 2 ^ 10" by (intro divide_left_mono) simp_all
  then have "least_float64 / 2 < 1 / 1000" by (simp add: least_float64_def)
  then have "least_float64 / 2 < \<bar>v\<bar>" using v by linarith
  then show ?thesis by (rule underflow_keep)
qed

lemma underflow_0: "underflow least 0 = 0"
  by (simp add: underflow_def)

lemma cov_012: "cov [0, 1, 2] [0, 1, 2] = 1" "cov [0, 1, 0] [0, 1, 0] = 1 / 3"
  "cov [0, 1, 2] [0, 1, 0] = 0"
  by (simp_all add: cov_def mean_list_def underflow64_keep underflow_0)


lemma columns_x3: "column x3 0 = [0, 1, 2]"
  by (simp add: column_def x3_def upt_rec)

lemma columns_y3: "column y3 0 = [0, 1, 2]" "column y3 (Suc 0) = [0, 1, 0]"
  by (simp_all add: column_def y3_def upt_rec)

lemma all_columns_x3_y3: "columns x3 = [[0, 1, 2]]" "columns y3 = [[0, 1, 2], [0, 1, 0]]"
proof -
  have "columns x3 = [column x3 0]" by (simp add: columns_def x3_def)
  then show "columns x3 = [[0, 1, 2]]" by (simp add: columns_x3)
  have "columns y3 = [column y3 0, column y3 (Suc 0)]"
    by (simp add: columns_def y3_def upt_rec)
  then show "columns y3 = [[0, 1, 2], [0, 1, 0]]" by (simp add: columns_y3)
qed

lemma pearson_012_012: "pearson_r [0, 1, 2] [0, 1, 2] = 1"
  by (rule pearson_r_self) (simp add: cov_012)

lemma pearson_010_010: "pearson_r [0, 1, 0] [0, 1, 0] = 1"
  by (rule pearson_r_self) (simp add: cov_012)

lemma pearson_012_010: "pearson_r [0, 1, 2] [0, 1, 0] = 0"
  by (simp add: pearson_r_def cov_012)

lemma corr_012: "corr_entry [0, 1, 2] [0, 1, 2] = Some 1" "corr_entry [0, 1, 2] [0, 1, 0] = Some 0"
  "corr_entry [0, 1, 0] [0, 1, 0] = Some 1"
  by (simp_all add: corr_entry_def cov_012 pearson_012_012 pearson_012_010 pearson_010_010)

lemma valid_1_2: "valid_assignment (Suc 0) 2 b \<longleftrightarrow> b = ([0], [0]) \<or> b = ([0], [Suc 0])"
proof -
  have "candidates (Suc 0) 2 = [([0], [0]), ([0], [Suc 0])]"
    by (simp add: candidates_def Let_def upt_rec)
  then have "set (candidates (Suc 0) 2) = {([0], [0]), ([0], [Suc 0])}" by simp
  then show ?thesis using set_candidates[of "Suc 0" 2] by auto
qed


lemma dims_x3_y3: "ncols x3 = 1" "ncols y3 = 2" "nrows x3 = nrows y3"
  by (simp_all add: x3_def y3_def)




section \<open>mean_corr_coef: the score of the optimal assignment\<close>

text \<open>
  C2, as the code has it. Let the method be "pearson" or "spearman", let the correlation
  routine return \<open>r\<close> for \<open>x\<close> and \<open>y\<close>, and let the block \<open>r[:d1, d1:]\<close> be a
  matrix of \<open>d1\<close> rows and \<open>d2\<close> columns. With a solver that meets its description:
  when the block holds no \<open>nan\<close>, \<open>mean_corr_coef\<close> returns the summed absolute
  correlation over the assignment the solver returns, divided by the larger number of
  columns; that assignment pairs \<open>min d1 d2\<close> columns one to one, and no such
  assignment has a larger sum. When the block holds a \<open>nan\<close>, the solver raises and
  no score is returned.
\<close>

theorem mean_corr_coef_optimal:
  assumes "lsa_spec lsa"
    and "method = ''pearson'' \<or> method = ''spearman''"
    and "(if method = ''pearson'' then corrcoef x y else spearman x y) = Inr r"
    and "block r (ncols x) = Inr cc1"
    and "rect cc1 (ncols x) (ncols y)"
  shows "if has_nan cc1
         then snd (mean_corr_coef_with corrcoef spearman lsa x y method return_permutation)
              = Inl (ValueError ''matrix contains invalid numeric entries'')
         else (\<exists>a. snd (mean_corr_coef_with corrcoef spearman lsa x y method return_permutation)
                    = Inr (fdiv (Some (block_sum cc1 a)) (max (ncols x) (ncols y)),
                           if return_permutation then Some a else None)
                  \<and> valid_assignment (ncols x) (ncols y) a
                  \<and> (\<forall>b. valid_assignment (ncols x) (ncols y) b
                         \<longrightarrow> block_sum cc1 b \<le> block_sum cc1 a))"
proof (cases "has_nan cc1")
  case True
  then show ?thesis
    using routine_run_nan[where corrcoef=corrcoef and spearman=spearman and x=x and y=y
        and rp=return_permutation, OF assms(1,2,3,4,5)]
    by simp
next
  case False
  obtain a where run: "\<forall>rp. snd (mean_corr_coef_with corrcoef spearman lsa x y method rp)
               = Inr (fdiv (Some (block_sum cc1 a)) (max (ncols x) (ncols y)),
                      if rp then Some a else None)"
    and va: "valid_assignment (ncols x) (ncols y) a"
    and opt: "\<forall>b. valid_assignment (ncols x) (ncols y) b \<longrightarrow> block_sum cc1 b \<le> block_sum cc1 a"
    using routine_run_defined[where corrcoef=corrcoef and spearman=spearman and x=x and y=y,
        OF assms(1,2,3,4,5) False]
    by blast
  have "snd (mean_corr_coef_with corrcoef spearman lsa x y method return_permutation)
          = Inr (fdiv (Some (block_sum cc1 a)) (max (ncols x) (ncols y)),
                 if return_permutation then Some a else None)"
    using run by (rule spec)
  then have "\<exists>a. snd (mean_corr_coef_with corrcoef spearman lsa x y method return_permutation)
                    = Inr (fdiv (Some (block_sum cc1 a)) (max (ncols x) (ncols y)),
                           if return_permutation then Some a else None)
                  \<and> valid_assignment (ncols x) (ncols y) a
                  \<and> (\<forall>b. valid_assignment (ncols x) (ncols y) b
                         \<longrightarrow> block_sum cc1 b \<le> block_sum cc1 a)"
    using va opt by blast
  then show ?thesis using False by (simp only: if_False)
qed

theorem mean_corr_coef_optimal_witness:
  "lsa_spec lsa_brute
   \<and> corrcoef_xy x3 y3 = Inr (np_corrcoef (columns x3 @ columns y3))
   \<and> block (np_corrcoef (columns x3 @ columns y3)) (ncols x3) = Inr [[Some 1, Some 0]]
   \<and> rect [[Some 1, Some 0]] (ncols x3) (ncols y3)
   \<and> \<not> has_nan [[Some 1, Some 0]]
   \<and> snd (mean_corr_coef_with corrcoef_xy spearmanr lsa_brute x3 y3 ''pearson'' True)
       = Inr (Some (1/2), Some ([0], [0]))"
proof -
  have h1: "lsa_spec lsa_brute" by (rule lsa_brute_meets_spec)
  have h2: "''pearson'' = ''pearson'' \<or> ''pearson'' = ''spearman''" by simp
  have r: "corrcoef_xy x3 y3 = Inr (np_corrcoef (columns x3 @ columns y3))"
    by (simp add: corrcoef_xy_def dims_x3_y3)
  then have h3: "(if ''pearson'' = ''pearson'' then corrcoef_xy x3 y3 else spearmanr x3 y3)
                 = Inr (np_corrcoef (columns x3 @ columns y3))"
    by simp
  have h4: "block (np_corrcoef (columns x3 @ columns y3)) (ncols x3) = Inr [[Some 1, Some 0]]"
    by (simp add: all_columns_x3_y3 np_corrcoef_def block_def dims_x3_y3 corr_012)
  have h5: "rect [[Some 1, Some 0]] (ncols x3) (ncols y3)"
    by (simp add: rect_def dims_x3_y3)
  have n: "\<not> has_nan [[Some 1, Some 0]]" by (simp add: has_nan_def)
  obtain a where a: "snd (mean_corr_coef_with corrcoef_xy spearmanr lsa_brute x3 y3 ''pearson'' True)
                    = Inr (fdiv (Some (block_sum [[Some 1, Some 0]] a)) (max (ncols x3) (ncols y3)),
                           if True then Some a else None)"
    and v: "valid_assignment (ncols x3) (ncols y3) a"
    and o: "\<forall>b. valid_assignment (ncols x3) (ncols y3) b
               \<longrightarrow> block_sum [[Some 1, Some 0]] b \<le> block_sum [[Some 1, Some 0]] a"
    using mean_corr_coef_optimal[where corrcoef=corrcoef_xy and spearman=spearmanr
        and x=x3 and y=y3 and return_permutation=True, OF h1 h2 h3 h4 h5] n
    by auto
  have s: "block_sum [[Some 1, Some 0]] ([0], [0]) = 1"
    "block_sum [[Some 1, Some 0]] ([0], [Suc 0]) = 0"
    by (simp_all add: block_sum_def block_at_def)
  have "valid_assignment (Suc 0) 2 ([0], [0])" by (simp add: valid_1_2)
  then have "block_sum [[Some 1, Some 0]] ([0], [0]) \<le> block_sum [[Some 1, Some 0]] a"
    using o by (simp add: dims_x3_y3)
  then have "a \<noteq> ([0], [Suc 0])" by (auto simp add: s)
  then have "a = ([0], [0])" using v by (simp add: dims_x3_y3 valid_1_2)
  then have "snd (mean_corr_coef_with corrcoef_xy spearmanr lsa_brute x3 y3 ''pearson'' True)
             = Inr (Some (1/2), Some ([0], [0]))"
    using a by (simp add: s dims_x3_y3 fdiv_def)
  then show ?thesis using h1 r h4 h5 n by simp
qed

text \<open>
  C2 as stated fails where a correlation is not a number: for \<open>x = [[1], [1]]\<close> and
  \<open>y = [[0], [1]]\<close> the correlation matrix holds \<open>nan\<close>, the solver refuses it,
  and no score is returned.
\<close>

theorem mean_corr_coef_constant_counterexample:
  "snd (mean_corr_coef lsa_brute arr_const arr1 ''pearson'' True)
   = Inl (ValueError ''matrix contains invalid numeric entries'')"
proof -
  have c: "columns arr_const = [[1, 1]]" "columns arr1 = [[0, 1]]"
    by (simp_all add: columns_def column_def arr_const_def arr1_def upt_rec)
  have "cov [1, 1] [1, 1] = 0" by (simp add: cov_def mean_list_def underflow_0)
  then have n: "corr_entry [1, 1] v = None" for v by (simp add: corr_entry_def)
  have d: "ncols arr_const = 1" "nrows arr_const = nrows arr1"
    by (simp_all add: arr_const_def arr1_def)
  have "and_then (corrcoef_xy arr_const arr1) (\<lambda>r. block r (ncols arr_const)) = Inr [[None]]"
    by (simp add: corrcoef_xy_def c np_corrcoef_def and_then_def block_def n d)
  then show ?thesis
    by (simp add: mean_corr_coef_def Let_def and_then_def lsa_brute_def has_nan_def
        fabs_def fscale_def)
qed

text \<open>
  With "spearman" and one column on each side the correlation routine returns no matrix:
  a Python float when there is at most one row or a column is constant, a NumPy scalar
  otherwise. Slicing either raises, so no score is returned for any such pair of arrays.
\<close>

lemma spearman_two_columns:
  assumes "ncols x = 1" and "ncols y = 1" and "nrows x = nrows y"
  shows "snd (mean_corr_coef lsa x y ''spearman'' return_permutation)
         = Inl (if nrows x \<le> 1 \<or> is_constant (column x 0) \<or> is_constant (column y 0)
                then TypeError ''float object is not subscriptable''
                else IndexError ''invalid index to scalar variable'')"
proof -
  have vars: "columns x @ columns y = [column x 0, column y 0]"
    using assms(1,2) by (simp add: columns_def)
  have m: "np_corrcoef [rankdata (column x 0), rankdata (column y 0)]
           = CorrMatrix (map (\<lambda>u. map (corr_entry u) [rankdata (column x 0), rankdata (column y 0)])
                             [rankdata (column x 0), rankdata (column y 0)])"
    by (rule np_corrcoef_matrix) simp
  show ?thesis
  proof (cases "nrows x \<le> 1 \<or> is_constant (column x 0) \<or> is_constant (column y 0)")
    case True
    then have "spearmanr x y = Inr (CorrFloat None)"
      using assms(3) by (auto simp add: spearmanr_def Let_def vars)
    then show ?thesis using True
      by (simp add: mean_corr_coef_def Let_def and_then_def block_def)
  next
    case False
    then have "\<exists>s. spearmanr x y = Inr (CorrScalar s)"
      using assms(3) by (simp add: spearmanr_def Let_def vars m)
    then obtain s where "spearmanr x y = Inr (CorrScalar s)" by blast
    then show ?thesis using False
      by (simp add: mean_corr_coef_def Let_def and_then_def block_def)
  qed
qed

section \<open>mean_corr_coef: an array against itself\<close>




text \<open>
  With no column the score is \<open>0.0 / max(0, 0)\<close>, which is \<open>nan\<close>.
\<close>

lemma mean_corr_coef_no_columns:
  assumes "lsa_spec lsa" and "ncols x = 0"
  shows "snd (mean_corr_coef lsa x x ''pearson'' rp)
         = Inr (None, if rp then Some ([], []) else None)"
proof -
  have "rect [] 0 0" "\<not> has_nan []" by (simp_all add: rect_def has_nan_def)
  then obtain a where a: "lsa [] = Inr a" and v: "valid_assignment 0 0 a"
    using assms(1) unfolding lsa_spec_def by (metis (full_types))
  have a0: "a = ([], [])" using v by (simp add: valid_assignment_no_rows)
  have "and_then (corrcoef_xy x x) (\<lambda>r. block r (ncols x)) = Inr []"
    using assms(2) by (simp add: corrcoef_xy_def and_then_def block_def)
  then have "snd (mean_corr_coef lsa x x ''pearson'' rp)
         = and_then (lsa (map (map (fscale (- 1))) (map (map fabs) []))) (\<lambda>permutation.
           and_then (index_pairs (map (map fabs) []) permutation) (\<lambda>picked.
           Inr (fdiv (fsum picked) (max (ncols x) (ncols x)),
                if rp then Some permutation else None)))"
    by (rule pearson_tail)
  then show ?thesis
    using a a0 assms(2) by (simp add: and_then_def index_pairs_def fdiv_def)
qed







section \<open>mean_corr_coef: permuting the columns of the second argument\<close>




end
